theory Spec2Isabelle
  imports Main "HOL-Library.Signed_Division" "HOL-Library.Multiset"
begin

section \<open>Numbers\<close>

text \<open>
  The game keeps scores, positions and counters in JavaScript numbers that only ever hold
  integers; they are modelled as \<open>int\<close>.  JavaScript's \<open>%\<close> is the truncated remainder
  (the sign follows the dividend), which is \<open>smod\<close> on \<open>int\<close>.
\<close>

definition js_rem :: "int \<Rightarrow> int \<Rightarrow> int" where
  "js_rem a b = a smod b"

section \<open>Board geometry\<close>

text \<open>\<open>components/game/CircularBoard\<close>: the constants the game page imports.\<close>

definition TOTAL_STEPS :: int where
  "TOTAL_STEPS = 25"

definition GATE_POSITIONS :: "int list" where
  "GATE_POSITIONS = [0, 5, 10, 15, 20]"

text \<open>\<open>types/game.types.ts\<close>: the same gates, as the twist handlers import them.\<close>

definition BOARD_GATE_POSITIONS :: "int list" where
  "BOARD_GATE_POSITIONS = [0, 5, 10, 15, 20]"

text \<open>
  \<open>getGatesPassed\<close> (game page): the \<open>for (let i = 1; i <= steps; i++)\<close> loop, with the
  array it pushes to as accumulator.
\<close>

function getGatesPassed_loop :: "int \<Rightarrow> int \<Rightarrow> int \<Rightarrow> int list \<Rightarrow> int list" where
  "getGatesPassed_loop startPos steps i gatesPassed =
     (if i \<le> steps then
        (let pos = js_rem (startPos + i) TOTAL_STEPS in
         getGatesPassed_loop startPos steps (i + 1)
           (if pos \<in> set GATE_POSITIONS then gatesPassed @ [pos] else gatesPassed))
      else gatesPassed)"
  by pat_completeness auto
termination
  by (relation "measure (\<lambda>(startPos, steps, i, gatesPassed). nat (steps + 1 - i))") auto

declare getGatesPassed_loop.simps [simp del]

definition getGatesPassed :: "int \<Rightarrow> int \<Rightarrow> int list" where
  "getGatesPassed startPos steps = getGatesPassed_loop startPos steps 1 []"

text \<open>
  The landing position of a move, as \<open>processNextMovement\<close> and
  \<open>handleBonusQuestionAnswer\<close> compute it:
  \<open>(player.boardPosition + movement.steps) % TOTAL_STEPS\<close>.
\<close>

definition newPosition :: "int \<Rightarrow> int \<Rightarrow> int" where
  "newPosition boardPosition steps = js_rem (boardPosition + steps) TOTAL_STEPS"

text \<open>
  \<open>findPreviousGate\<close> (twist handlers).  \<open>Math.max(...previousGates)\<close> is only evaluated
  on a non-empty array; it is the fold of \<open>max\<close> over it.
\<close>

definition Math_max :: "int list \<Rightarrow> int" where
  "Math_max xs = fold max (tl xs) (hd xs)"

definition findPreviousGate :: "int \<Rightarrow> int" where
  "findPreviousGate currentPosition =
     (let previousGates = filter (\<lambda>g. g < currentPosition) BOARD_GATE_POSITIONS in
      if length previousGates > 0 then Math_max previousGates
      else BOARD_GATE_POSITIONS ! (length BOARD_GATE_POSITIONS - 1))"

section \<open>Data model (\<open>types/game.types.ts\<close>)\<close>

datatype KnowledgeCategory = history | sport | bible | culture | geography | science | other

datatype PlayerType = human | digital

record Player =
  p_id :: string
  p_name :: string
  p_type :: PlayerType
  score :: int
  boardPosition :: int
  starsCollected :: int
  avatarEmoji :: string

record StarState =
  s_id :: int
  pointValue :: int
  isEarned :: bool
  earnedByPlayerId :: "string option"

datatype TwistEffectType =
    move_back_gate | others_back_gate | free_star | steal_star | bonus_question
  | instant_points | upgrade_zero_star | extra_turn | swap_positions | double_next
  | teleport_gate | freeze_player | reverse_order | star_peek | shield
  | everyone_moves | random_teleport | category_master | difficulty_choice | points_swap

datatype TargetPlayer = t_self | t_others | t_choose | t_all | t_random

text \<open>\<open>effectValue?: number\<close>: \<open>None\<close> is the absent field.\<close>

record TwistCard =
  t_id :: string
  title :: string
  description :: string
  emoji :: string
  effectType :: TwistEffectType
  effectValue :: "int option"
  targetPlayer :: "TargetPlayer option"
  isPositive :: bool
  requiresChoice :: bool
  requiresQuestion :: bool

text \<open>
  \<open>PlayerModifier\<close>: \<open>type\<close> is one of four strings, \<open>value?: string | number\<close> holds a
  category name or a multiplier.
\<close>

datatype ModifierType = m_double_next | m_shield | m_frozen | m_category_master

datatype ModifierValue = NumberValue int | CategoryValue KnowledgeCategory

record PlayerModifier =
  playerId :: string
  m_type :: ModifierType
  turnsRemaining :: int
  m_value :: "ModifierValue option"

definition STAR_POINT_VALUES :: "int list" where
  "STAR_POINT_VALUES = [0, 50, 50, 100, 100, 150, 150, 200, 200, 250]"

definition TOTAL_STARS :: int where
  "TOTAL_STARS = 10"

text \<open>
  \<open>createInitialStars\<close>: the point values are shuffled (Fisher-Yates over
  \<open>Math.random\<close>), then numbered by index.  The shuffle's outcome is the parameter
  \<open>shuffledValues\<close>, some arrangement of \<open>STAR_POINT_VALUES\<close>.
\<close>

definition createInitialStars :: "int list \<Rightarrow> StarState list" where
  "createInitialStars shuffledValues =
     map (\<lambda>(pointValue, index).
            \<lparr>s_id = int index, pointValue = pointValue, isEarned = False,
             earnedByPlayerId = None\<rparr>)
         (zip shuffledValues [0..<length shuffledValues])"

section \<open>Modifier store (\<open>hooks/useTwists.ts\<close>)\<close>

text \<open>
  The three state updaters of the hook, each a function from the previous modifier list
  to the next one, as passed to \<open>setModifiers\<close>.
\<close>

definition addModifier :: "PlayerModifier \<Rightarrow> PlayerModifier list \<Rightarrow> PlayerModifier list" where
  "addModifier modifier prev =
     (let filtered = filter (\<lambda>m. \<not> (playerId m = playerId modifier \<and> m_type m = m_type modifier)) prev
      in filtered @ [modifier])"

definition removeModifier :: "string \<Rightarrow> ModifierType \<Rightarrow> PlayerModifier list \<Rightarrow> PlayerModifier list" where
  "removeModifier pid ty prev = filter (\<lambda>m. \<not> (playerId m = pid \<and> m_type m = ty)) prev"

definition tickModifiers :: "PlayerModifier list \<Rightarrow> PlayerModifier list" where
  "tickModifiers prev =
     filter (\<lambda>m. turnsRemaining m > 0)
       (map (\<lambda>m. m\<lparr>turnsRemaining := turnsRemaining m - 1\<rparr>) prev)"

definition hasModifier :: "PlayerModifier list \<Rightarrow> string \<Rightarrow> ModifierType \<Rightarrow> bool" where
  "hasModifier modifiers pid ty = list_ex (\<lambda>m. playerId m = pid \<and> m_type m = ty) modifiers"

definition getModifier :: "PlayerModifier list \<Rightarrow> string \<Rightarrow> ModifierType \<Rightarrow> PlayerModifier option" where
  "getModifier modifiers pid ty = find (\<lambda>m. playerId m = pid \<and> m_type m = ty) modifiers"

text \<open>The calls a game makes on the store, and a run of them from the empty store.\<close>

datatype ModifierOp =
    Add PlayerModifier
  | Remove string ModifierType
  | Tick

fun applyOp :: "ModifierOp \<Rightarrow> PlayerModifier list \<Rightarrow> PlayerModifier list" where
  "applyOp (Add m) prev = addModifier m prev"
| "applyOp (Remove pid ty) prev = removeModifier pid ty prev"
| "applyOp Tick prev = tickModifiers prev"

definition runOps :: "ModifierOp list \<Rightarrow> PlayerModifier list" where
  "runOps ops = fold applyOp ops []"

text \<open>
  What the last add for a pair promises, following the specification's words: the most
  recent \<open>add\<close> for \<open>(playerId, type)\<close> sets the entry's turns and value, every later
  \<open>tick\<close> takes one turn off and drops the entry when no turn is left, and a \<open>remove\<close>
  drops it.  \<open>expected ops key\<close> is the entry's \<open>(turnsRemaining, value)\<close> after the
  run, if it is present.
\<close>

fun expectedStep ::
  "string \<times> ModifierType \<Rightarrow> ModifierOp \<Rightarrow> (int \<times> ModifierValue option) option
     \<Rightarrow> (int \<times> ModifierValue option) option" where
  "expectedStep key (Add m) e =
     (if (playerId m, m_type m) = key then Some (turnsRemaining m, m_value m) else e)"
| "expectedStep key (Remove pid ty) e = (if (pid, ty) = key then None else e)"
| "expectedStep key Tick e =
     (case e of None \<Rightarrow> None
      | Some (t, v) \<Rightarrow> if t - 1 > 0 then Some (t - 1, v) else None)"

definition expected ::
  "ModifierOp list \<Rightarrow> string \<times> ModifierType \<Rightarrow> (int \<times> ModifierValue option) option" where
  "expected ops key = fold (expectedStep key) ops None"

section \<open>Twist handlers (\<open>lib/twistHandlers\<close>)\<close>

definition isPlayerFrozen :: "string \<Rightarrow> PlayerModifier list \<Rightarrow> bool" where
  "isPlayerFrozen pid modifiers =
     list_ex (\<lambda>m. playerId m = pid \<and> m_type m = m_frozen \<and> turnsRemaining m > 0) modifiers"

text \<open>
  \<open>TwistExecutionResult\<close>.  The optional fields are \<open>None\<close> when the handler leaves them
  out; the message is presentation only and is not modelled.
\<close>

record TwistExecutionResult =
  r_players :: "Player list option"
  r_stars :: "StarState list option"
  r_addModifier :: "PlayerModifier option"
  goToNextTurn :: bool
  showChoicePopup :: bool
  goToBonusQuestion :: bool
  goToSpinning :: bool
  r_extraTurnPending :: "bool option"
  r_reverseOrder :: "int option"

definition nextTurnResult :: TwistExecutionResult where
  "nextTurnResult =
     \<lparr>r_players = None, r_stars = None, r_addModifier = None, goToNextTurn = True,
      showChoicePopup = False, goToBonusQuestion = False, goToSpinning = False,
      r_extraTurnPending = None, r_reverseOrder = None\<rparr>"

text \<open>
  JavaScript truthiness of an optional number: absent and \<open>0\<close> are falsy.
  \<open>twist.effectValue || d\<close> is \<open>orDefault (effectValue twist) d\<close>.
\<close>

definition truthy :: "int option \<Rightarrow> bool" where
  "truthy v = (case v of None \<Rightarrow> False | Some n \<Rightarrow> n \<noteq> 0)"

definition orDefault :: "int option \<Rightarrow> int \<Rightarrow> int" where
  "orDefault v d = (case v of None \<Rightarrow> d | Some n \<Rightarrow> if n \<noteq> 0 then n else d)"

text \<open>
  \<open>executeImmediateTwist\<close>.  \<open>random_teleport\<close> draws
  \<open>Math.floor(Math.random() * TOTAL_STEPS)\<close>; the drawn position is the parameter
  \<open>randomPos\<close>.
\<close>

definition executeImmediateTwist ::
  "int \<Rightarrow> TwistCard \<Rightarrow> Player \<Rightarrow> Player list \<Rightarrow> StarState list \<Rightarrow> TwistExecutionResult" where
  "executeImmediateTwist randomPos twist currentPlayer players stars =
     (if requiresChoice twist then
        nextTurnResult\<lparr>goToNextTurn := False, showChoicePopup := True\<rparr>
      else case effectType twist of
        move_back_gate \<Rightarrow>
          (if truthy (effectValue twist) then
             (let newPos = js_rem (boardPosition currentPlayer - the (effectValue twist) + TOTAL_STEPS)
                             TOTAL_STEPS;
                  updatedPlayers = map (\<lambda>p. if p_id p = p_id currentPlayer
                                              then p\<lparr>boardPosition := newPos\<rparr> else p) players
              in nextTurnResult\<lparr>r_players := Some updatedPlayers\<rparr>)
           else
             (let prevGate = findPreviousGate (boardPosition currentPlayer);
                  updatedPlayers = map (\<lambda>p. if p_id p = p_id currentPlayer
                                              then p\<lparr>boardPosition := prevGate\<rparr> else p) players
              in nextTurnResult\<lparr>r_players := Some updatedPlayers\<rparr>))
      | others_back_gate \<Rightarrow>
          (let updatedPlayers = map (\<lambda>p. if p_id p = p_id currentPlayer then p
                                          else p\<lparr>boardPosition := findPreviousGate (boardPosition p)\<rparr>)
                                    players
           in nextTurnResult\<lparr>r_players := Some updatedPlayers\<rparr>)
      | random_teleport \<Rightarrow>
          (let updatedPlayers = map (\<lambda>p. if p_id p = p_id currentPlayer
                                          then p\<lparr>boardPosition := randomPos\<rparr> else p) players
           in nextTurnResult\<lparr>r_players := Some updatedPlayers\<rparr>)
      | everyone_moves \<Rightarrow>
          (let steps = orDefault (effectValue twist) 2;
               updatedPlayers = map (\<lambda>p. p\<lparr>boardPosition :=
                                             js_rem (boardPosition p + steps) TOTAL_STEPS\<rparr>) players
           in nextTurnResult\<lparr>r_players := Some updatedPlayers\<rparr>)
      | upgrade_zero_star \<Rightarrow>
          (case find (\<lambda>s. earnedByPlayerId s = Some (p_id currentPlayer) \<and> pointValue s = 0) stars of
             Some zeroStar \<Rightarrow>
               (let updatedStars = map (\<lambda>s. if s_id s = s_id zeroStar
                                             then s\<lparr>pointValue := 250\<rparr> else s) stars;
                    updatedPlayers = map (\<lambda>p. if p_id p = p_id currentPlayer
                                                then p\<lparr>score := score p + 250\<rparr> else p) players
                in nextTurnResult\<lparr>r_players := Some updatedPlayers, r_stars := Some updatedStars\<rparr>)
           | None \<Rightarrow> nextTurnResult)
      | instant_points \<Rightarrow>
          (let points = orDefault (effectValue twist) 50;
               updatedPlayers = map (\<lambda>p. if p_id p = p_id currentPlayer
                                           then p\<lparr>score := score p + points\<rparr> else p) players
           in nextTurnResult\<lparr>r_players := Some updatedPlayers\<rparr>)
      | double_next \<Rightarrow>
          nextTurnResult\<lparr>r_addModifier :=
            Some \<lparr>playerId = p_id currentPlayer, m_type = m_double_next, turnsRemaining = 2,
                  m_value = Some (NumberValue 2)\<rparr>\<rparr>
      | bonus_question \<Rightarrow>
          nextTurnResult\<lparr>goToNextTurn := False, goToBonusQuestion := True\<rparr>
      | extra_turn \<Rightarrow> nextTurnResult\<lparr>r_extraTurnPending := Some True\<rparr>
      | reverse_order \<Rightarrow> nextTurnResult\<lparr>r_reverseOrder := Some (orDefault (effectValue twist) 3)\<rparr>
      | shield \<Rightarrow>
          nextTurnResult\<lparr>r_addModifier :=
            Some \<lparr>playerId = p_id currentPlayer, m_type = m_shield,
                  turnsRemaining = orDefault (effectValue twist) 2, m_value = None\<rparr>\<rparr>
      | _ \<Rightarrow> nextTurnResult)"

section \<open>Question pool (\<open>hooks/useQuestions.ts\<close>)\<close>

record AnswerOption =
  a_id :: string
  a_text :: string
  isCorrect :: bool

record TriviaQuestion =
  q_id :: string
  questionText :: string
  answers :: "AnswerOption list"
  difficulty :: int
  category :: KnowledgeCategory

text \<open>
  \<open>Math.floor(Math.random() * n)\<close> is a draw \<open>rnd n\<close>; \<open>Math.random\<close> lies in \<open>[0, 1)\<close>,
  so a draw for \<open>n > 0\<close> is below \<open>n\<close>.
\<close>

definition validRandom :: "(nat \<Rightarrow> nat) \<Rightarrow> bool" where
  "validRandom rnd = (\<forall>n. 0 < n \<longrightarrow> rnd n < n)"

definition pickRandom :: "(nat \<Rightarrow> nat) \<Rightarrow> 'a list \<Rightarrow> 'a" where
  "pickRandom rnd xs = xs ! rnd (length xs)"

definition categoryFilter :: "KnowledgeCategory option \<Rightarrow> TriviaQuestion \<Rightarrow> bool" where
  "categoryFilter forcedCategory q =
     (case forcedCategory of None \<Rightarrow> True | Some c \<Rightarrow> category q = c)"

text \<open>The \<open>for (const nearbyDiff of nearbyDifficulties)\<close> loop: the first non-empty pool.\<close>

fun nearbyLoop ::
  "KnowledgeCategory option \<Rightarrow> TriviaQuestion list \<Rightarrow> string set \<Rightarrow> int list
     \<Rightarrow> TriviaQuestion list option" where
  "nearbyLoop forcedCategory questions used [] = None"
| "nearbyLoop forcedCategory questions used (nearbyDiff # rest) =
     (let fallbackQuestions =
            filter (\<lambda>q. difficulty q = nearbyDiff \<and> q_id q \<notin> used \<and> categoryFilter forcedCategory q)
                   questions
      in if length fallbackQuestions > 0 then Some fallbackQuestions
         else nearbyLoop forcedCategory questions used rest)"

text \<open>
  \<open>selectQuestionByDifficulty\<close>, on the question list and the set of used ids; it returns
  the selected question (\<open>None\<close> is \<open>null\<close>) and the updated set of used ids.
\<close>

definition selectQuestionByDifficulty ::
  "(nat \<Rightarrow> nat) \<Rightarrow> int \<Rightarrow> KnowledgeCategory option \<Rightarrow> TriviaQuestion list \<Rightarrow> string set
     \<Rightarrow> TriviaQuestion option \<times> string set" where
  "selectQuestionByDifficulty rnd d forcedCategory questions used =
     (let availableQuestions =
            filter (\<lambda>q. difficulty q = d \<and> q_id q \<notin> used \<and> categoryFilter forcedCategory q)
                   questions
      in if length availableQuestions = 0 then
           (let nearbyDifficulties = filter (\<lambda>x. x \<ge> 1 \<and> x \<le> 5) [d - 1, d + 1, d - 2, d + 2]
            in case nearbyLoop forcedCategory questions used nearbyDifficulties of
                 Some fallbackQuestions \<Rightarrow>
                   (let selected = pickRandom rnd fallbackQuestions
                    in (Some selected, insert (q_id selected) used))
               | None \<Rightarrow>
                   (let anyUnused0 = filter (\<lambda>q. q_id q \<notin> used \<and> categoryFilter forcedCategory q)
                                            questions;
                        anyUnused = (if length anyUnused0 = 0 \<and> forcedCategory \<noteq> None
                                     then filter (\<lambda>q. q_id q \<notin> used) questions
                                     else anyUnused0)
                    in if length anyUnused > 0 then
                         (let selected = pickRandom rnd anyUnused
                          in (Some selected, insert (q_id selected) used))
                       else (None, used)))
         else
           (let selected = pickRandom rnd availableQuestions
            in (Some selected, insert (q_id selected) used)))"

text \<open>
  The cascade in the specification's words: the pool of the exact difficulty with the
  category filter, then the pools of the difficulties \<open>d - 1, d + 1, d - 2, d + 2\<close> that lie
  in \<open>[1, 5]\<close> with the category filter, then every unused question with the category
  filter, then, only if a category was forced, every unused question.
\<close>

definition unusedPool ::
  "(TriviaQuestion \<Rightarrow> bool) \<Rightarrow> TriviaQuestion list \<Rightarrow> string set \<Rightarrow> TriviaQuestion list" where
  "unusedPool P questions used = filter (\<lambda>q. q_id q \<notin> used \<and> P q) questions"

definition cascadePools ::
  "int \<Rightarrow> KnowledgeCategory option \<Rightarrow> TriviaQuestion list \<Rightarrow> string set
     \<Rightarrow> TriviaQuestion list list" where
  "cascadePools d forcedCategory questions used =
     [unusedPool (\<lambda>q. difficulty q = d \<and> categoryFilter forcedCategory q) questions used]
     @ map (\<lambda>d'. unusedPool (\<lambda>q. difficulty q = d' \<and> categoryFilter forcedCategory q) questions used)
           (filter (\<lambda>x. 1 \<le> x \<and> x \<le> 5) [d - 1, d + 1, d - 2, d + 2])
     @ [unusedPool (categoryFilter forcedCategory) questions used]
     @ (if forcedCategory \<noteq> None then [unusedPool (\<lambda>q. True) questions used] else [])"

section \<open>Auxiliary notions for the properties\<close>

text \<open>The key of a modifier, and the store read as a list of key/entry pairs.\<close>

definition mkey :: "PlayerModifier \<Rightarrow> string \<times> ModifierType" where
  "mkey m = (playerId m, m_type m)"

definition entries ::
  "PlayerModifier list \<Rightarrow> ((string \<times> ModifierType) \<times> (int \<times> ModifierValue option)) list" where
  "entries ms = map (\<lambda>m. (mkey m, (turnsRemaining m, m_value m))) ms"

text \<open>The modifier \<open>freeze_player\<close> adds, with a given number of turns.\<close>

definition frozenModifier :: "string \<Rightarrow> int \<Rightarrow> PlayerModifier" where
  "frozenModifier pid n = \<lparr>playerId = pid, m_type = m_frozen, turnsRemaining = n, m_value = None\<rparr>"

text \<open>Two sample questions.\<close>

definition sampleQuestionA :: TriviaQuestion where
  "sampleQuestionA =
     \<lparr>q_id = ''a'', questionText = ''?'', answers = [], difficulty = 5, category = sport\<rparr>"

definition sampleQuestionB :: TriviaQuestion where
  "sampleQuestionB =
     \<lparr>q_id = ''b'', questionText = ''?'', answers = [], difficulty = 2, category = history\<rparr>"

section \<open>Game state (\<open>app/game/page.tsx\<close>)\<close>

datatype GamePhase =
    spinning | twist | twistChoice | twistBonusQ | question | countdown | results
  | moving | selectStar | revealingStar | finished

datatype WheelOption = WheelTwist | WheelDifficulty int

record PlayerAnswer =
  pa_playerId :: string
  answerId :: string

record PlayerStepsEarned =
  se_player :: Player
  stepsEarned :: int
  se_isCorrect :: bool
  isCurrentTurn :: bool

record Movement =
  mv_playerId :: string
  mv_steps :: int

text \<open>
  The state of the game component: its own \<open>useState\<close> cells, and those of the two hooks
  it uses (\<open>currentQuestion\<close>, \<open>questionsAnswered\<close>, \<open>questions\<close> and the used-id set of
  \<open>useQuestions\<close>; \<open>activeTwist\<close> and \<open>modifiers\<close> of \<open>useTwists\<close>).  \<open>None\<close> is \<open>null\<close>.
\<close>

record GameState =
  players :: "Player list"
  stars :: "StarState list"
  currentTurnIndex :: int
  gamePhase :: GamePhase
  wheelResult :: "WheelOption option"
  playerAnswers :: "PlayerAnswer list"
  activeHumanIndex :: int
  roundSteps :: "PlayerStepsEarned list"
  pendingMovements :: "Movement list"
  currentMovingPlayerIndex :: int
  gatesPassedQueue :: "int list"
  selectingStarPlayer :: "Player option"
  revealingStar :: "StarState option"
  questions :: "TriviaQuestion list"
  usedQuestionIds :: "string set"
  currentQuestion :: "TriviaQuestion option"
  questionsAnswered :: int
  activeTwist :: "TwistCard option"
  modifiers :: "PlayerModifier list"
  showTwistChoice :: bool
  chosenDifficulty :: "int option"
  extraTurnPending :: bool
  playOrderReversed :: bool
  reverseTurnsRemaining :: int
  bonusQuestionSteps :: int
  peekedStarId :: "int option"

text \<open>
  A handler is a function from the state its render captured to the state after its
  updates.  The values a handler reads are those of the state it is applied to; an updater
  \<open>setX(prev => \<dots>)\<close> is applied to the state as the earlier updates of the same handler
  left it.  A handler that calls \<open>setTimeout\<close> returns the callback it scheduled next to
  the state, and does not run it.
\<close>

datatype Scheduled = CallHandleNextTurn | IncrementMovingPlayerIndex

text \<open>Array access \<open>xs[i]\<close>: \<open>undefined\<close> outside the array.\<close>

definition at_index :: "'a list \<Rightarrow> int \<Rightarrow> 'a option" where
  "at_index xs i = (if 0 \<le> i \<and> i < int (length xs) then Some (xs ! nat i) else None)"

definition currentTurnPlayer :: "GameState \<Rightarrow> Player option" where
  "currentTurnPlayer s = at_index (players s) (currentTurnIndex s)"

definition availableStars :: "GameState \<Rightarrow> StarState list" where
  "availableStars s = filter (\<lambda>st. \<not> isEarned st) (stars s)"

text \<open>
  The step of the turn order, \<open>(i + 1) % players.length\<close> or
  \<open>(i - 1 + players.length) % players.length\<close> when the order is reversed.  The page does
  not run the game with no players (it shows the loading screen), where the remainder would
  be \<open>NaN\<close>; the properties below are stated for a non-empty roster.
\<close>

definition stepIndex :: "bool \<Rightarrow> int \<Rightarrow> int \<Rightarrow> int" where
  "stepIndex reversed n i = (if reversed then js_rem (i - 1 + n) n else js_rem (i + 1) n)"

text \<open>
  The skip loop of \<open>handleNextTurn\<close>:
  \<open>while (isPlayerFrozen(players[nextIndex]?.id, modifiers) && attempts < players.length)\<close>.
  The test reads the render's \<open>players\<close> and \<open>modifiers\<close>, which the loop does not change;
  each \<open>removeModifier\<close> call is an updater applied to the store, the last argument.  The
  result is the final \<open>nextIndex\<close> and the store.
\<close>

definition frozenAt :: "Player list \<Rightarrow> PlayerModifier list \<Rightarrow> int \<Rightarrow> bool" where
  "frozenAt ps ms i = (case at_index ps i of None \<Rightarrow> False | Some p \<Rightarrow> isPlayerFrozen (p_id p) ms)"

function skipFrozen ::
  "Player list \<Rightarrow> PlayerModifier list \<Rightarrow> bool \<Rightarrow> int \<Rightarrow> nat \<Rightarrow> PlayerModifier list
     \<Rightarrow> int \<times> PlayerModifier list" where
  "skipFrozen ps ms reversed nextIndex attempts store =
     (if frozenAt ps ms nextIndex \<and> attempts < length ps then
        skipFrozen ps ms reversed (stepIndex reversed (int (length ps)) nextIndex) (attempts + 1)
          (removeModifier (p_id (ps ! nat nextIndex)) m_frozen store)
      else (nextIndex, store))"
  by pat_completeness auto
termination
  by (relation "measure (\<lambda>(ps, ms, reversed, nextIndex, attempts, store). length ps - attempts)") auto

declare skipFrozen.simps [simp del]

text \<open>
  \<open>handleNextTurn\<close>.  The callback belongs to a render, whose values it reads: the first
  argument \<open>r\<close> (\<open>extraTurnPending\<close>, \<open>reverseTurnsRemaining\<close>, \<open>playOrderReversed\<close>,
  \<open>currentTurnIndex\<close>, \<open>players\<close> and \<open>modifiers\<close> are read from it).  Its updates apply to the
  state at the time it runs, the second argument \<open>s\<close>.  For a call made while the render is
  current both are the same state; a timer's callback is the \<open>handleNextTurn\<close> of the render
  in which the timer was set, and runs on the state as it is when the timer fires.

  \<open>tickModifiers()\<close> and \<open>removeModifier(\<dots>)\<close> queue updaters of the modifier store; the
  constant \<open>modifiers\<close> that the skip loop tests is the render's list, before the tick.
\<close>

definition handleNextTurn :: "GameState \<Rightarrow> GameState \<Rightarrow> GameState" where
  "handleNextTurn r s =
     (let s0 = s\<lparr>questionsAnswered := questionsAnswered s + 1, currentQuestion := None,
                 playerAnswers := [], roundSteps := [], pendingMovements := [],
                 activeHumanIndex := 0, wheelResult := None, activeTwist := None,
                 showTwistChoice := False\<rparr>
      in if extraTurnPending r then
           s0\<lparr>extraTurnPending := False, gamePhase := spinning\<rparr>
         else
           (let s1 = (if reverseTurnsRemaining r > 0 then
                        s0\<lparr>reverseTurnsRemaining := reverseTurnsRemaining s0 - 1,
                           playOrderReversed :=
                             (if reverseTurnsRemaining r = 1 then False else playOrderReversed s0)\<rparr>
                      else s0);
                s2 = s1\<lparr>modifiers := tickModifiers (modifiers s1)\<rparr>;
                nextIndex0 = stepIndex (playOrderReversed r) (int (length (players r)))
                               (currentTurnIndex r);
                (nextIndex, store) = skipFrozen (players r) (modifiers r) (playOrderReversed r)
                                       nextIndex0 0 (modifiers s2)
            in s2\<lparr>modifiers := store, currentTurnIndex := nextIndex, gamePhase := spinning\<rparr>))"

text \<open>\<open>handleStarRevealComplete\<close>: the award of the revealed star.\<close>

definition handleStarRevealComplete :: "GameState \<Rightarrow> GameState" where
  "handleStarRevealComplete s =
     (case (selectingStarPlayer s, revealingStar s) of
        (Some sp, Some rs) \<Rightarrow>
          (let s1 = s\<lparr>stars := map (\<lambda>st. if s_id st = s_id rs
                                          then st\<lparr>isEarned := True, earnedByPlayerId := Some (p_id sp)\<rparr>
                                          else st) (stars s),
                      players := map (\<lambda>p. if p_id p = p_id sp
                                           then p\<lparr>score := score p + pointValue rs,
                                                  starsCollected := starsCollected p + 1\<rparr>
                                           else p) (players s)\<rparr>;
               remainingGates = drop 1 (gatesPassedQueue s);
               remainingStars = filter (\<lambda>st. \<not> isEarned st \<and> s_id st \<noteq> s_id rs) (stars s);
               s2 = s1\<lparr>revealingStar := None\<rparr>
           in if length remainingGates > 0 \<and> length remainingStars > 0 then
                s2\<lparr>gatesPassedQueue := remainingGates, gamePhase := selectStar\<rparr>
              else
                (let s3 = s2\<lparr>selectingStarPlayer := None, gatesPassedQueue := []\<rparr>
                 in if length remainingStars = 0 then s3\<lparr>gamePhase := finished\<rparr>
                    else s3\<lparr>currentMovingPlayerIndex := currentMovingPlayerIndex s3 + 1,
                            gamePhase := moving\<rparr>))
      | _ \<Rightarrow> s)"

text \<open>
  \<open>getForcedCategory\<close> (twist handlers).  A \<open>category_master\<close> modifier is only created
  with a category as its value, which is what the cast to \<open>KnowledgeCategory\<close> relies on.
\<close>

definition getForcedCategory :: "string \<Rightarrow> PlayerModifier list \<Rightarrow> KnowledgeCategory option" where
  "getForcedCategory pid ms =
     (case find (\<lambda>m. playerId m = pid \<and> m_type m = m_category_master \<and> turnsRemaining m > 0) ms of
        Some categoryModifier \<Rightarrow>
          (case m_value categoryModifier of Some (CategoryValue c) \<Rightarrow> Some c | _ \<Rightarrow> None)
      | None \<Rightarrow> None)"

text \<open>
  \<open>handleTwistConfirm\<close>.  Its random draws are parameters: \<open>randomPos\<close> for
  \<open>random_teleport\<close>, \<open>randomDifficulty\<close> and \<open>rnd\<close> for the bonus question.
\<close>

definition handleTwistConfirm ::
  "int \<Rightarrow> int \<Rightarrow> (nat \<Rightarrow> nat) \<Rightarrow> GameState \<Rightarrow> GameState \<times> Scheduled list" where
  "handleTwistConfirm randomPos randomDifficulty rnd s =
     (case (activeTwist s, currentTurnPlayer s) of
        (Some tw, Some cp) \<Rightarrow>
          (let result = executeImmediateTwist randomPos tw cp (players s) (stars s);
               s1 = (case r_players result of Some ps \<Rightarrow> s\<lparr>players := ps\<rparr> | None \<Rightarrow> s);
               s2 = (case r_stars result of Some sts \<Rightarrow> s1\<lparr>stars := sts\<rparr> | None \<Rightarrow> s1);
               s3 = (case r_addModifier result of
                       Some m \<Rightarrow> s2\<lparr>modifiers := addModifier m (modifiers s2)\<rparr> | None \<Rightarrow> s2);
               s4 = (if r_extraTurnPending result = Some True
                     then s3\<lparr>extraTurnPending := True\<rparr> else s3);
               s5 = (if truthy (r_reverseOrder result)
                     then s4\<lparr>playOrderReversed := True,
                             reverseTurnsRemaining := the (r_reverseOrder result)\<rparr>
                     else s4)
           in if showChoicePopup result then
                (s5\<lparr>showTwistChoice := True, gamePhase := twistChoice\<rparr>, [])
              else if goToBonusQuestion result then
                (let forcedCategory = getForcedCategory (p_id cp) (modifiers s);
                     (selected, used) = selectQuestionByDifficulty rnd randomDifficulty forcedCategory
                                          (questions s) (usedQuestionIds s)
                 in (s5\<lparr>usedQuestionIds := used,
                         currentQuestion := (case selected of Some q \<Rightarrow> Some q
                                             | None \<Rightarrow> currentQuestion s5),
                         bonusQuestionSteps := orDefault (effectValue tw) 5,
                         gamePhase := twistBonusQ\<rparr>, []))
              else if goToSpinning result then
                (s5\<lparr>activeTwist := None, gamePhase := spinning\<rparr>, [])
              else if goToNextTurn result then
                (s5\<lparr>activeTwist := None\<rparr>, [CallHandleNextTurn])
              else (s5, []))
      | _ \<Rightarrow> (s, []))"

text \<open>
  \<open>handleTwistChoosePlayer\<close>.  \<open>target\<close> is the player object (\<open>targetPlayer\<close>) the choice popup or the
  automated player passes in; \<open>rnd\<close> is the draw of the stolen star.
\<close>

definition handleTwistChoosePlayer ::
  "(nat \<Rightarrow> nat) \<Rightarrow> Player \<Rightarrow> GameState \<Rightarrow> GameState \<times> Scheduled list" where
  "handleTwistChoosePlayer rnd target s =
     (case (activeTwist s, currentTurnPlayer s) of
        (Some tw, Some cp) \<Rightarrow>
          (let s1 =
             (case effectType tw of
                steal_star \<Rightarrow>
                  (let targetStars = filter (\<lambda>st. earnedByPlayerId st = Some (p_id target)) (stars s)
                   in if length targetStars > 0 then
                        (let randomStar = pickRandom rnd targetStars
                         in s\<lparr>stars := map (\<lambda>st. if s_id st = s_id randomStar
                                                   then st\<lparr>earnedByPlayerId := Some (p_id cp)\<rparr>
                                                   else st) (stars s),
                               players := map (\<lambda>p.
                                  if p_id p = p_id target then
                                    p\<lparr>score := score p - pointValue randomStar,
                                       starsCollected := starsCollected p - 1\<rparr>
                                  else if p_id p = p_id cp then
                                    p\<lparr>score := score p + pointValue randomStar,
                                       starsCollected := starsCollected p + 1\<rparr>
                                  else p) (players s)\<rparr>)
                      else s)
              | swap_positions \<Rightarrow>
                  (let currentPos = boardPosition cp; targetPos = boardPosition target
                   in s\<lparr>players := map (\<lambda>p.
                            if p_id p = p_id cp then p\<lparr>boardPosition := targetPos\<rparr>
                            else if p_id p = p_id target then p\<lparr>boardPosition := currentPos\<rparr>
                            else p) (players s)\<rparr>)
              | freeze_player \<Rightarrow>
                  s\<lparr>modifiers := addModifier
                       \<lparr>playerId = p_id target, m_type = m_frozen, turnsRemaining = 1,
                        m_value = None\<rparr> (modifiers s)\<rparr>
              | points_swap \<Rightarrow>
                  (if score cp < score target then
                     (let currentScore = score cp; targetScore = score target
                      in s\<lparr>players := map (\<lambda>p.
                               if p_id p = p_id cp then p\<lparr>score := targetScore\<rparr>
                               else if p_id p = p_id target then p\<lparr>score := currentScore\<rparr>
                               else p) (players s)\<rparr>)
                   else s)
              | _ \<Rightarrow> s)
           in (s1\<lparr>showTwistChoice := False, activeTwist := None\<rparr>, [CallHandleNextTurn]))
      | _ \<Rightarrow> (s, []))"

text \<open>\<open>handleTwistFreeStar\<close>: \<open>star\<close> is the star object the board passes in.\<close>

definition handleTwistFreeStar :: "StarState \<Rightarrow> GameState \<Rightarrow> GameState \<times> Scheduled list" where
  "handleTwistFreeStar star s =
     (case currentTurnPlayer s of
        Some cp \<Rightarrow>
          (s\<lparr>stars := map (\<lambda>st. if s_id st = s_id star
                                then st\<lparr>isEarned := True, earnedByPlayerId := Some (p_id cp)\<rparr>
                                else st) (stars s),
             players := map (\<lambda>p. if p_id p = p_id cp
                                  then p\<lparr>score := score p + pointValue star,
                                         starsCollected := starsCollected p + 1\<rparr>
                                  else p) (players s),
             showTwistChoice := False, activeTwist := None\<rparr>, [CallHandleNextTurn])
      | None \<Rightarrow> (s, []))"

text \<open>
  \<open>processNextMovement\<close>.  The index into the movement queue starts at 0 and only grows,
  so the read \<open>pendingMovements[currentMovingPlayerIndex]\<close> below the length is in range.
  Its direct call of \<open>handleNextTurn\<close> is taken to be of the same render.
\<close>

definition processNextMovement :: "GameState \<Rightarrow> GameState \<times> Scheduled list" where
  "processNextMovement s =
     (if currentMovingPlayerIndex s \<ge> int (length (pendingMovements s)) then
        (if length (availableStars s) = 0 then (s\<lparr>gamePhase := finished\<rparr>, [])
         else (handleNextTurn s s, []))
      else
        (case at_index (pendingMovements s) (currentMovingPlayerIndex s) of
           None \<Rightarrow> (s, [])
         | Some movement \<Rightarrow>
             (case find (\<lambda>p. p_id p = mv_playerId movement) (players s) of
                None \<Rightarrow> (s, [])
              | Some player \<Rightarrow>
                  (let gatesPassed = getGatesPassed (boardPosition player) (mv_steps movement);
                       newPos = newPosition (boardPosition player) (mv_steps movement);
                       s1 = s\<lparr>players := map (\<lambda>p. if p_id p = p_id player
                                                   then p\<lparr>boardPosition := newPos\<rparr> else p)
                                              (players s)\<rparr>
                   in if length gatesPassed > 0 \<and> length (availableStars s) > 0 then
                        (s1\<lparr>gatesPassedQueue := gatesPassed, selectingStarPlayer := Some player,
                            gamePhase := selectStar\<rparr>, [])
                      else (s1, [IncrementMovingPlayerIndex])))))"

section \<open>Start of a game and reachable states\<close>

text \<open>
  The state the page starts from: the \<open>useState\<close> defaults, with the roster that
  \<open>createPlayersFromSettings\<close> built and the stars of \<open>createInitialStars\<close>.
\<close>

definition initialState :: "Player list \<Rightarrow> int list \<Rightarrow> GameState" where
  "initialState roster shuffledValues =
     \<lparr>players = roster, stars = createInitialStars shuffledValues, currentTurnIndex = 0,
      gamePhase = spinning, wheelResult = None, playerAnswers = [], activeHumanIndex = 0,
      roundSteps = [], pendingMovements = [], currentMovingPlayerIndex = 0,
      gatesPassedQueue = [], selectingStarPlayer = None, revealingStar = None,
      questions = [], usedQuestionIds = {}, currentQuestion = None, questionsAnswered = 0,
      activeTwist = None, modifiers = [], showTwistChoice = False, chosenDifficulty = None,
      extraTurnPending = False, playOrderReversed = False, reverseTurnsRemaining = 0,
      bonusQuestionSteps = 5, peekedStarId = None\<rparr>"

text \<open>
  A player as \<open>createPlayersFromSettings\<close> creates one: score 0, no stars, on a start gate.
  The display name and the avatar, which no handler reads, are placeholders.
\<close>

definition newPlayer :: "string \<Rightarrow> PlayerType \<Rightarrow> int \<Rightarrow> Player" where
  "newPlayer pid ty startGate =
     \<lparr>p_id = pid, p_name = pid, p_type = ty, score = 0, boardPosition = startGate,
      starsCollected = 0, avatarEmoji = ''''\<rparr>"

text \<open>
  The states a game can reach, as far as scores and stars go.  Scores, star counts and
  stars are written by four handlers only: the star award, the free star, the player
  choice of a twist and the confirmation of a twist.  Each has a rule, with the inputs the
  page can pass (a selecting player of the roster, an unearned star, a target of the
  roster, any twist and any draw).  Every other handler leaves the stars, and the players
  up to their board positions, as they are; rule \<open>other\<close> stands for all of them.
\<close>

inductive reachable :: "GameState \<Rightarrow> bool" where
  initial:
    "mset shuffledValues = mset STAR_POINT_VALUES \<Longrightarrow>
     \<forall>p \<in> set roster. score p = 0 \<and> starsCollected p = 0 \<Longrightarrow>
     reachable (initialState roster shuffledValues)"
| other:
    "reachable s \<Longrightarrow> stars s' = stars s \<Longrightarrow>
     map (\<lambda>p. p\<lparr>boardPosition := 0\<rparr>) (players s') = map (\<lambda>p. p\<lparr>boardPosition := 0\<rparr>) (players s) \<Longrightarrow>
     reachable s'"
| starReveal:
    "reachable s \<Longrightarrow> p_id sp \<in> set (map p_id (players s)) \<Longrightarrow> rs \<in> set (availableStars s) \<Longrightarrow>
     reachable (handleStarRevealComplete (s\<lparr>selectingStarPlayer := Some sp, revealingStar := Some rs\<rparr>))"
| freeStar:
    "reachable s \<Longrightarrow> star \<in> set (availableStars s) \<Longrightarrow>
     reachable (fst (handleTwistFreeStar star s))"
| choosePlayer:
    "reachable s \<Longrightarrow> target \<in> set (players s) \<Longrightarrow> validRandom rnd \<Longrightarrow>
     reachable (fst (handleTwistChoosePlayer rnd target s))"
| twistConfirm:
    "reachable s \<Longrightarrow> validRandom rnd \<Longrightarrow>
     reachable (fst (handleTwistConfirm randomPos randomDifficulty rnd s))"

text \<open>The star pool's totals.\<close>

definition starTotal :: "StarState list \<Rightarrow> int" where
  "starTotal sts = sum_list (map pointValue sts)"

definition earnedCount :: "StarState list \<Rightarrow> int" where
  "earnedCount sts = int (length (filter isEarned sts))"

definition unearnedCount :: "StarState list \<Rightarrow> int" where
  "unearnedCount sts = int (length (filter (\<lambda>st. \<not> isEarned st) sts))"

definition zeroStars :: "StarState list \<Rightarrow> int" where
  "zeroStars sts = int (length (filter (\<lambda>st. pointValue st = 0) sts))"

definition poolInvariant :: "StarState list \<Rightarrow> bool" where
  "poolInvariant sts =
     (distinct (map s_id sts) \<and> length sts = 10 \<and> zeroStars sts \<le> 1
      \<and> starTotal sts + 250 * zeroStars sts = 1500)"

definition scoresNonNegative :: "GameState \<Rightarrow> bool" where
  "scoresNonNegative s = (\<forall>p \<in> set (players s). 0 \<le> score p)"

text \<open>Sample rosters, cards and states.\<close>

definition twoPlayers :: "Player list" where
  "twoPlayers = [newPlayer ''human-0'' human 0, newPlayer ''digital-0'' digital 5]"

definition threePlayers :: "Player list" where
  "threePlayers = [newPlayer ''human-0'' human 0, newPlayer ''human-1'' human 5,
                   newPlayer ''digital-0'' digital 10]"

definition card :: "TwistEffectType \<Rightarrow> int option \<Rightarrow> bool \<Rightarrow> TwistCard" where
  "card eff val choice =
     \<lparr>t_id = ''twist'', title = '''', description = '''', emoji = '''', effectType = eff,
      effectValue = val, targetPlayer = (if choice then Some t_choose else Some t_self),
      isPositive = True, requiresChoice = choice, requiresQuestion = False\<rparr>"

text \<open>
  A game of two players with the stars in the order of \<open>STAR_POINT_VALUES\<close> (one outcome of
  the shuffle): star 0 is worth 0 points and star 9 is worth 250.
\<close>

definition gameStart :: GameState where
  "gameStart = initialState twoPlayers STAR_POINT_VALUES"

definition starNo :: "int \<Rightarrow> int \<Rightarrow> StarState" where
  "starNo k v = \<lparr>s_id = k, pointValue = v, isEarned = False, earnedByPlayerId = None\<rparr>"

text \<open>
  The first player passes a gate and is awarded star 0; on a later turn of theirs they draw
  \<open>upgrade_zero_star\<close> and confirm it.
\<close>

definition zeroStarAwarded :: GameState where
  "zeroStarAwarded =
     handleStarRevealComplete
       (gameStart\<lparr>selectingStarPlayer := Some (newPlayer ''human-0'' human 0),
                  revealingStar := Some (starNo 0 0)\<rparr>)"

definition zeroStarUpgraded :: GameState where
  "zeroStarUpgraded =
     fst (handleTwistConfirm 0 1 (\<lambda>n. 0)
            (zeroStarAwarded\<lparr>activeTwist := Some (card upgrade_zero_star None False)\<rparr>))"

text \<open>
  The first player is awarded star 9 (250 points).  The second player, on their turn, draws
  \<open>points_swap\<close> and chooses the first player; on a later turn they draw \<open>steal_star\<close> and
  choose the first player again.
\<close>

definition bigStarAwarded :: GameState where
  "bigStarAwarded =
     handleStarRevealComplete
       (gameStart\<lparr>selectingStarPlayer := Some (newPlayer ''human-0'' human 0),
                  revealingStar := Some (starNo 9 250)\<rparr>)"

definition pointsSwapped :: GameState where
  "pointsSwapped =
     fst (handleTwistChoosePlayer (\<lambda>n. 0) (players bigStarAwarded ! 0)
            (bigStarAwarded\<lparr>currentTurnIndex := 1,
                            activeTwist := Some (card points_swap None True)\<rparr>))"

definition starStolen :: GameState where
  "starStolen =
     fst (handleTwistChoosePlayer (\<lambda>n. 0) (players pointsSwapped ! 0)
            (pointsSwapped\<lparr>activeTwist := Some (card steal_star None True)\<rparr>))"

text \<open>
  Three players at the start of a game; the first has drawn \<open>freeze_player\<close> and the choice
  popup is open.  They choose the second player, who is next in turn.
\<close>

definition freezeChoice :: GameState where
  "freezeChoice =
     (initialState threePlayers STAR_POINT_VALUES)
       \<lparr>gamePhase := twistChoice, wheelResult := Some WheelTwist,
        activeTwist := Some (card freeze_player None True), showTwistChoice := True\<rparr>"

definition freezeChosen :: GameState where
  "freezeChosen =
     fst (handleTwistChoosePlayer (\<lambda>n. 0) (newPlayer ''human-1'' human 5) freezeChoice)"

text \<open>
  Two players at the start of a game; the first draws \<open>extra_turn\<close> and confirms it, and the
  advance that the confirmation scheduled runs.  The second player then draws
  \<open>instant_points\<close> (50) and confirms it.
\<close>

definition extraTurnDrawn :: GameState where
  "extraTurnDrawn =
     gameStart\<lparr>gamePhase := twist, wheelResult := Some WheelTwist,
                activeTwist := Some (card extra_turn None False)\<rparr>"

definition extraTurnConfirmed :: GameState where
  "extraTurnConfirmed = fst (handleTwistConfirm 0 1 (\<lambda>n. 0) extraTurnDrawn)"

definition extraTurnAdvanced :: GameState where
  "extraTurnAdvanced = handleNextTurn extraTurnDrawn extraTurnConfirmed"



section \<open>Board geometry: properties\<close>

lemma js_rem_nonneg: "0 \<le> a \<Longrightarrow> 0 < b \<Longrightarrow> js_rem a b = a mod b"
  by (simp add: js_rem_def signed_modulo_int_def sgn_if)

lemma getGatesPassed_loop_eq:
  "getGatesPassed_loop startPos steps i acc =
     acc @ filter (\<lambda>x. x \<in> set GATE_POSITIONS)
             (map (\<lambda>k. js_rem (startPos + k) TOTAL_STEPS) [i..steps])"
proof (induction startPos steps i acc rule: getGatesPassed_loop.induct)
  case (1 startPos steps i gatesPassed)
  show ?case
  proof (cases "i \<le> steps")
    case True
    have up: "[i..steps] = i # [i + 1..steps]"
      using True by (simp add: upto_rec1)
    show ?thesis
      using True "1.IH" [OF True refl]
      by (subst getGatesPassed_loop.simps) (simp add: up Let_def)
  next
    case False
    then show ?thesis
      by (subst getGatesPassed_loop.simps) simp
  qed
qed

lemma Math_max_is_Max: "xs \<noteq> [] \<Longrightarrow> Math_max xs = Max (set xs)"
proof -
  assume ne: "xs \<noteq> []"
  then obtain y ys where xs: "xs = y # ys" by (cases xs) auto
  have "Max (set (y # ys)) = fold max ys y"
    by (rule Max.set_eq_fold)
  then show ?thesis
    by (simp add: Math_max_def xs)
qed

text \<open>
  C3.  For a position \<open>p\<close> in \<open>[0, 25)\<close> and a step count \<open>s \<ge> 0\<close>, the move lands on
  \<open>(p + s) mod 25\<close>, and \<open>getGatesPassed\<close> returns exactly the positions \<open>(p + i) mod 25\<close>,
  \<open>i = 1, \<dots>, s\<close>, that are one of the gates 0, 5, 10, 15, 20, in the order of traversal.
\<close>

theorem C3_move_and_gates:
  assumes "0 \<le> p" and "p < 25" and "0 \<le> s"
  shows "newPosition p s = (p + s) mod 25
       \<and> getGatesPassed p s =
           filter (\<lambda>x. x \<in> {0, 5, 10, 15, 20}) (map (\<lambda>i. (p + i) mod 25) [1..s])"
proof -
  have pos: "newPosition p s = (p + s) mod 25"
    using assms by (simp add: newPosition_def TOTAL_STEPS_def js_rem_nonneg)
  have m: "map (\<lambda>k. js_rem (p + k) TOTAL_STEPS) [1..s] = map (\<lambda>i. (p + i) mod 25) [1..s]"
    using assms by (intro map_cong refl) (simp add: TOTAL_STEPS_def js_rem_nonneg)
  have f: "(\<lambda>x. x \<in> set GATE_POSITIONS) = (\<lambda>x. x \<in> {0, 5, 10, 15, 20})"
    by (rule ext) (auto simp: GATE_POSITIONS_def)
  have "getGatesPassed p s =
          filter (\<lambda>x. x \<in> {0, 5, 10, 15, 20}) (map (\<lambda>i. (p + i) mod 25) [1..s])"
    unfolding getGatesPassed_def getGatesPassed_loop_eq m f by simp
  with pos show ?thesis by simp
qed

theorem C3_move_and_gates_witness:
  "newPosition 23 8 = 6 \<and> getGatesPassed 23 8 = [0, 5]"
proof -
  have up: "[1..8] = [1, 2, 3, 4, 5, 6, 7, 8::int]"
    by (simp add: upto_rec1)
  show ?thesis
    using C3_move_and_gates [of 23 8] by (simp add: up)
qed

text \<open>
  \<open>processNextMovement\<close> moves the queued player to \<open>newPosition\<close> of their position and
  the queued steps, and, when it opens the star selection, queues exactly the gates of
  \<open>getGatesPassed\<close>.
\<close>

lemma processNextMovement_geometry:
  assumes mv: "at_index (pendingMovements s) (currentMovingPlayerIndex s) = Some mv"
    and pl: "find (\<lambda>p. p_id p = mv_playerId mv) (players s) = Some pl"
  shows "players (fst (processNextMovement s)) =
           map (\<lambda>p. if p_id p = p_id pl
                     then p\<lparr>boardPosition := newPosition (boardPosition pl) (mv_steps mv)\<rparr>
                     else p) (players s)"
    and "gamePhase (fst (processNextMovement s)) = selectStar \<and> gamePhase s \<noteq> selectStar \<Longrightarrow>
           gatesPassedQueue (fst (processNextMovement s)) =
             getGatesPassed (boardPosition pl) (mv_steps mv)"
proof -
  have inr: "\<not> currentMovingPlayerIndex s \<ge> int (length (pendingMovements s))"
    using mv by (auto simp: at_index_def split: if_splits)
  show "players (fst (processNextMovement s)) =
           map (\<lambda>p. if p_id p = p_id pl
                     then p\<lparr>boardPosition := newPosition (boardPosition pl) (mv_steps mv)\<rparr>
                     else p) (players s)"
    using inr mv pl by (simp add: processNextMovement_def Let_def)
  show "gatesPassedQueue (fst (processNextMovement s)) =
             getGatesPassed (boardPosition pl) (mv_steps mv)"
    if "gamePhase (fst (processNextMovement s)) = selectStar \<and> gamePhase s \<noteq> selectStar"
    using that inr mv pl by (simp add: processNextMovement_def Let_def split: if_splits)
qed

text \<open>
  C4.  \<open>findPreviousGate\<close> returns the greatest gate strictly below the position, and the
  last gate, 20, when no gate is strictly below it; so \<open>findPreviousGate 0 = 20\<close>, and
  \<open>findPreviousGate (g + 1) = g\<close> for each gate \<open>g\<close>.
\<close>

theorem C4_findPreviousGate:
  "(if \<exists>g \<in> set BOARD_GATE_POSITIONS. g < pos
    then findPreviousGate pos = Max {g \<in> set BOARD_GATE_POSITIONS. g < pos}
    else findPreviousGate pos = 20)
   \<and> findPreviousGate 0 = 20
   \<and> (\<forall>g \<in> set BOARD_GATE_POSITIONS. findPreviousGate (g + 1) = g)"
proof -
  have gen: "if \<exists>g \<in> set BOARD_GATE_POSITIONS. g < pos
    then findPreviousGate pos = Max {g \<in> set BOARD_GATE_POSITIONS. g < pos}
    else findPreviousGate pos = 20"
  proof (cases "\<exists>g \<in> set BOARD_GATE_POSITIONS. g < pos")
    case True
    then have ne: "filter (\<lambda>g. g < pos) BOARD_GATE_POSITIONS \<noteq> []"
      by (simp add: filter_empty_conv)
    have "findPreviousGate pos = Math_max (filter (\<lambda>g. g < pos) BOARD_GATE_POSITIONS)"
      using ne by (simp add: findPreviousGate_def Let_def)
    also have "\<dots> = Max (set (filter (\<lambda>g. g < pos) BOARD_GATE_POSITIONS))"
      using ne by (rule Math_max_is_Max)
    finally show ?thesis
      using True by simp
  next
    case False
    then have "filter (\<lambda>g. g < pos) BOARD_GATE_POSITIONS = []"
      by (simp add: filter_empty_conv)
    then have "findPreviousGate pos = 20"
      by (simp add: findPreviousGate_def Let_def) (simp add: BOARD_GATE_POSITIONS_def)
    with False show ?thesis by simp
  qed
  have z: "findPreviousGate 0 = 20"
    by (simp add: findPreviousGate_def BOARD_GATE_POSITIONS_def Math_max_def)
  have s: "\<forall>g \<in> set BOARD_GATE_POSITIONS. findPreviousGate (g + 1) = g"
    by (simp add: findPreviousGate_def BOARD_GATE_POSITIONS_def Math_max_def)
  from gen z s show ?thesis by blast
qed

theorem C4_findPreviousGate_witness:
  "findPreviousGate 13 = 10 \<and> findPreviousGate 0 = 20 \<and> findPreviousGate 21 = 20"
proof -
  have m: "Max {g \<in> set BOARD_GATE_POSITIONS. g < 13} = 10"
  proof -
    have "{g \<in> set BOARD_GATE_POSITIONS. g < 13} = {0, 5, 10}"
      by (auto simp: BOARD_GATE_POSITIONS_def)
    then show ?thesis by simp
  qed
  have e: "\<exists>g \<in> set BOARD_GATE_POSITIONS. g < 13"
    by (simp add: BOARD_GATE_POSITIONS_def)
  have g20: "(20::int) \<in> set BOARD_GATE_POSITIONS"
    by (simp add: BOARD_GATE_POSITIONS_def)
  show ?thesis
    using C4_findPreviousGate [of 13] e m g20 by auto
qed

section \<open>Modifier store: properties\<close>

lemma keys_entries: "map fst (entries ms) = map mkey ms"
  by (simp add: entries_def comp_def)

lemma add_distinct: "distinct (map mkey ms) \<Longrightarrow> distinct (map mkey (addModifier m ms))"
  by (auto simp: addModifier_def mkey_def distinct_map_filter)

lemma remove_distinct: "distinct (map mkey ms) \<Longrightarrow> distinct (map mkey (removeModifier p t ms))"
  by (simp add: removeModifier_def distinct_map_filter)

lemma tick_keys: "map mkey (tickModifiers ms) = map mkey (filter (\<lambda>m. turnsRemaining m - 1 > 0) ms)"
  by (induction ms) (auto simp: tickModifiers_def mkey_def)

lemma tick_distinct: "distinct (map mkey ms) \<Longrightarrow> distinct (map mkey (tickModifiers ms))"
  by (simp add: tick_keys distinct_map_filter)

lemma add_lookup:
  "map_of (entries (addModifier m ms)) k =
     (if k = mkey m then Some (turnsRemaining m, m_value m) else map_of (entries ms) k)"
  by (induction ms) (auto simp: addModifier_def entries_def mkey_def)

lemma remove_lookup:
  "map_of (entries (removeModifier p t ms)) k =
     (if k = (p, t) then None else map_of (entries ms) k)"
  by (induction ms) (auto simp: removeModifier_def entries_def mkey_def)

lemma tick_Cons:
  "entries (tickModifiers (m # ms)) =
     (if turnsRemaining m - 1 > 0 then [(mkey m, (turnsRemaining m - 1, m_value m))] else [])
     @ entries (tickModifiers ms)"
  by (simp add: tickModifiers_def entries_def mkey_def)

lemma lookup_absent: "k \<notin> mkey ` set ms \<Longrightarrow> map_of (entries ms) k = None"
  by (induction ms) (auto simp: entries_def)

lemma tick_lookup:
  "distinct (map mkey ms) \<Longrightarrow>
   map_of (entries (tickModifiers ms)) k =
     (case map_of (entries ms) k of None \<Rightarrow> None
      | Some (t, v) \<Rightarrow> if t - 1 > 0 then Some (t - 1, v) else None)"
proof (induction ms)
  case Nil
  then show ?case by (simp add: tickModifiers_def entries_def)
next
  case (Cons m ms)
  have ih: "map_of (entries (tickModifiers ms)) k =
     (case map_of (entries ms) k of None \<Rightarrow> None
      | Some (t, v) \<Rightarrow> if t - 1 > 0 then Some (t - 1, v) else None)"
    using Cons by simp
  have hd: "entries (m # ms) = (mkey m, (turnsRemaining m, m_value m)) # entries ms"
    by (simp add: entries_def)
  show ?case
  proof (cases "k = mkey m")
    case True
    have "mkey m \<notin> mkey ` set ms" using Cons.prems by simp
    then have "map_of (entries ms) k = None"
      using True by (simp add: lookup_absent)
    then show ?thesis
      using True ih by (simp add: tick_Cons hd)
  next
    case False
    then show ?thesis
      using ih by (simp add: tick_Cons hd)
  qed
qed

lemma applyOp_distinct: "distinct (map mkey ms) \<Longrightarrow> distinct (map mkey (applyOp op ms))"
  by (cases op) (simp_all add: add_distinct remove_distinct tick_distinct)

lemma applyOp_lookup:
  "distinct (map mkey ms) \<Longrightarrow>
   map_of (entries (applyOp op ms)) k = expectedStep k op (map_of (entries ms) k)"
  by (cases op) (auto simp: add_lookup remove_lookup tick_lookup mkey_def split: option.splits)

lemma fold_applyOp:
  "distinct (map mkey ms) \<Longrightarrow>
   distinct (map mkey (fold applyOp ops ms))
   \<and> map_of (entries (fold applyOp ops ms)) k = fold (expectedStep k) ops (map_of (entries ms) k)"
proof (induction ops arbitrary: ms)
  case Nil
  then show ?case by simp
next
  case (Cons op ops)
  have d: "distinct (map mkey (applyOp op ms))"
    using Cons.prems by (rule applyOp_distinct)
  show ?case
    using Cons.IH [OF d] applyOp_lookup [OF Cons.prems, of op k] by simp
qed

lemma runOps_lookup:
  "distinct (map mkey (runOps ops)) \<and> map_of (entries (runOps ops)) k = expected ops k"
  using fold_applyOp [of "[]" ops k] by (simp add: runOps_def expected_def entries_def)

text \<open>
  C5.  After any run of \<open>addModifier\<close>, \<open>removeModifier\<close> and \<open>tickModifiers\<close> calls from
  the empty store, the list holds at most one entry per \<open>(playerId, type)\<close> pair, and every
  entry present carries the turns and the value of the most recent add for its pair, less
  one turn for every tick since.
\<close>

theorem C5_modifier_unique_latest:
  "distinct (map (\<lambda>m. (playerId m, m_type m)) (runOps ops))
   \<and> (\<forall>m \<in> set (runOps ops).
        expected ops (playerId m, m_type m) = Some (turnsRemaining m, m_value m))"
proof -
  have d: "distinct (map mkey (runOps ops))"
    using runOps_lookup by blast
  have "expected ops (playerId m, m_type m) = Some (turnsRemaining m, m_value m)"
    if "m \<in> set (runOps ops)" for m
  proof -
    have "(mkey m, (turnsRemaining m, m_value m)) \<in> set (entries (runOps ops))"
      using that by (auto simp: entries_def)
    moreover have "distinct (map fst (entries (runOps ops)))"
      using d by (simp add: keys_entries)
    ultimately have "map_of (entries (runOps ops)) (mkey m) = Some (turnsRemaining m, m_value m)"
      by (rule map_of_is_SomeI [rotated])
    then show ?thesis
      using runOps_lookup [of ops "mkey m"] by (simp add: mkey_def)
  qed
  moreover have mk: "mkey = (\<lambda>m. (playerId m, m_type m))"
    by (rule ext) (simp add: mkey_def)
  ultimately show ?thesis
    using d unfolding mk by blast
qed

theorem C5_modifier_unique_latest_witness:
  "runOps [Add (frozenModifier ''B'' 1), Add (frozenModifier ''B'' 3), Tick]  = [frozenModifier ''B'' 2]
   \<and> expected [Add (frozenModifier ''B'' 1), Add (frozenModifier ''B'' 3), Tick] (''B'', m_frozen) = Some (2, None)"
  using C5_modifier_unique_latest [of "[Add (frozenModifier ''B'' 1), Add (frozenModifier ''B'' 3), Tick]"]
  by (simp add: runOps_def expected_def addModifier_def tickModifiers_def frozenModifier_def)

section \<open>Question pool: properties\<close>

lemma nearbyLoop_find:
  "nearbyLoop fc qs used ds =
     find (\<lambda>pool. pool \<noteq> [])
       (map (\<lambda>d'. unusedPool (\<lambda>q. difficulty q = d' \<and> categoryFilter fc q) qs used) ds)"
  by (induction ds) (auto simp: unusedPool_def Let_def conj_ac)

lemma find_append:
  "find P (xs @ ys) = (case find P xs of None \<Rightarrow> find P ys | Some x \<Rightarrow> Some x)"
  by (induction xs) auto

lemma select_cascade:
  "fst (selectQuestionByDifficulty rnd d fc qs used) =
     map_option (pickRandom rnd) (find (\<lambda>pool. pool \<noteq> []) (cascadePools d fc qs used))"
  by (auto simp: selectQuestionByDifficulty_def cascadePools_def nearbyLoop_find find_append Let_def
      unusedPool_def conj_ac split: option.splits)

lemma select_marks_used:
  "snd (selectQuestionByDifficulty rnd d fc qs used) =
     (case fst (selectQuestionByDifficulty rnd d fc qs used) of
        None \<Rightarrow> used | Some q \<Rightarrow> insert (q_id q) used)"
  by (simp add: selectQuestionByDifficulty_def Let_def split: option.splits)

lemma pool_subset:
  "pool \<in> set (cascadePools d fc qs used) \<Longrightarrow> q \<in> set pool \<Longrightarrow> q \<in> set qs \<and> q_id q \<notin> used"
  by (auto simp: cascadePools_def unusedPool_def split: if_splits)

lemma all_unused_in_cascade:
  "q \<in> set qs \<Longrightarrow> q_id q \<notin> used \<Longrightarrow> \<exists>pool \<in> set (cascadePools d fc qs used). q \<in> set pool"
proof (cases fc)
  case None
  assume "q \<in> set qs" "q_id q \<notin> used"
  then have "q \<in> set (unusedPool (categoryFilter fc) qs used)"
    using None by (simp add: unusedPool_def categoryFilter_def)
  then show ?thesis by (auto simp: cascadePools_def)
next
  case (Some c)
  assume "q \<in> set qs" "q_id q \<notin> used"
  then have "q \<in> set (unusedPool (\<lambda>q. True) qs used)"
    by (simp add: unusedPool_def)
  then show ?thesis using Some by (auto simp: cascadePools_def)
qed

lemma pickRandom_mem: "validRandom rnd \<Longrightarrow> xs \<noteq> [] \<Longrightarrow> pickRandom rnd xs \<in> set xs"
  by (simp add: validRandom_def pickRandom_def)

text \<open>
  C2.  For any difficulty (so for each of 1..5) and any optional forced category,
  \<open>selectQuestionByDifficulty\<close> returns \<open>null\<close> exactly when every question of the pool is
  used; a question it returns is an unused question of the pool; and the question comes
  from the first non-empty pool of the cascade: exact difficulty with the category filter,
  the difficulties \<open>d - 1, d + 1, d - 2, d + 2\<close> within \<open>[1, 5]\<close> with the category filter,
  any unused question with the category filter, and, only if a category was forced, any
  unused question.
\<close>

theorem C2_select:
  assumes "validRandom rnd"
  shows "(fst (selectQuestionByDifficulty rnd d fc qs used) = None
            \<longleftrightarrow> (\<forall>q \<in> set qs. q_id q \<in> used))
       \<and> (\<forall>q. fst (selectQuestionByDifficulty rnd d fc qs used) = Some q
            \<longrightarrow> q \<in> set qs \<and> q_id q \<notin> used)
       \<and> fst (selectQuestionByDifficulty rnd d fc qs used) =
           map_option (pickRandom rnd) (find (\<lambda>pool. pool \<noteq> []) (cascadePools d fc qs used))"
proof -
  let ?r = "fst (selectQuestionByDifficulty rnd d fc qs used)"
  let ?pools = "cascadePools d fc qs used"
  have casc: "?r = map_option (pickRandom rnd) (find (\<lambda>pool. pool \<noteq> []) ?pools)"
    by (rule select_cascade)
  have none: "?r = None \<longleftrightarrow> (\<forall>q \<in> set qs. q_id q \<in> used)"
  proof
    assume "?r = None"
    then have "\<forall>pool \<in> set ?pools. pool = []"
      using casc by (auto simp: find_None_iff)
    then show "\<forall>q \<in> set qs. q_id q \<in> used"
      using all_unused_in_cascade [of _ qs used d fc] by fastforce
  next
    assume all: "\<forall>q \<in> set qs. q_id q \<in> used"
    have "pool = []" if "pool \<in> set ?pools" for pool
    proof (cases pool)
      case Nil then show ?thesis .
    next
      case (Cons q rest)
      then have "q \<in> set pool" by simp
      then show ?thesis using pool_subset [OF that] all by blast
    qed
    then show "?r = None"
      using casc by (auto simp: find_None_iff)
  qed
  have some: "q \<in> set qs \<and> q_id q \<notin> used" if "?r = Some q" for q
  proof -
    from that casc obtain pool where f: "find (\<lambda>pool. pool \<noteq> []) ?pools = Some pool"
      and q: "q = pickRandom rnd pool" by auto
    from f have "pool \<in> set ?pools" and "pool \<noteq> []"
      by (auto simp: find_Some_iff)
    then show ?thesis
      using pool_subset pickRandom_mem [OF assms] q by blast
  qed
  from none some casc show ?thesis by blast
qed

theorem C2_select_witness:
  "validRandom (\<lambda>n. 0)
   \<and> fst (selectQuestionByDifficulty (\<lambda>n. 0) 1 (Some science) [sampleQuestionA, sampleQuestionB] {''b''}) = Some sampleQuestionA
   \<and> fst (selectQuestionByDifficulty (\<lambda>n. 0) 1 (Some science) [sampleQuestionA, sampleQuestionB] {''a'', ''b''}) = None"
proof -
  have v: "validRandom (\<lambda>n. 0)" by (simp add: validRandom_def)
  have a: "fst (selectQuestionByDifficulty (\<lambda>n. 0) 1 (Some science) [sampleQuestionA, sampleQuestionB] {''b''}) = Some sampleQuestionA"
    using C2_select [OF v, of 1 "Some science" "[sampleQuestionA, sampleQuestionB]" "{''b''}"]
    by (simp add: cascadePools_def unusedPool_def categoryFilter_def sampleQuestionA_def sampleQuestionB_def pickRandom_def)
  have b: "fst (selectQuestionByDifficulty (\<lambda>n. 0) 1 (Some science) [sampleQuestionA, sampleQuestionB] {''a'', ''b''}) = None"
    using C2_select [OF v, of 1 "Some science" "[sampleQuestionA, sampleQuestionB]" "{''a'', ''b''}"]
    by (simp add: sampleQuestionA_def sampleQuestionB_def)
  from v a b show ?thesis by blast
qed

section \<open>Twist effects: properties\<close>

text \<open>
  C9.  For a \<open>move_back_gate\<close> twist that asks for no choice, \<open>executeImmediateTwist\<close> moves
  the acting player to \<open>findPreviousGate\<close> of their position when \<open>effectValue\<close> is present but
  0 (as when it is absent), and back by \<open>effectValue\<close> steps exactly when \<open>effectValue\<close> is a
  number other than 0; either way the turn advances.
\<close>

theorem C9_move_back_gate:
  assumes "\<not> requiresChoice tw" and "effectType tw = move_back_gate"
  shows "(effectValue tw = Some 0 \<longrightarrow>
            r_players (executeImmediateTwist rp tw cp ps sts) =
              Some (map (\<lambda>p. if p_id p = p_id cp
                              then p\<lparr>boardPosition := findPreviousGate (boardPosition cp)\<rparr>
                              else p) ps))
       \<and> (effectValue tw = None \<longrightarrow>
            r_players (executeImmediateTwist rp tw cp ps sts) =
              Some (map (\<lambda>p. if p_id p = p_id cp
                              then p\<lparr>boardPosition := findPreviousGate (boardPosition cp)\<rparr>
                              else p) ps))
       \<and> (\<forall>v. effectValue tw = Some v \<and> v \<noteq> 0 \<longrightarrow>
            r_players (executeImmediateTwist rp tw cp ps sts) =
              Some (map (\<lambda>p. if p_id p = p_id cp
                              then p\<lparr>boardPosition := js_rem (boardPosition cp - v + 25) 25\<rparr>
                              else p) ps))
       \<and> goToNextTurn (executeImmediateTwist rp tw cp ps sts)"
  using assms
  by (simp add: executeImmediateTwist_def truthy_def nextTurnResult_def Let_def TOTAL_STEPS_def)

theorem C9_move_back_gate_witness:
  "r_players (executeImmediateTwist 0 (card move_back_gate (Some 0) False)
               (newPlayer ''human-0'' human 7) [newPlayer ''human-0'' human 7] [])
     = Some [newPlayer ''human-0'' human 5]
   \<and> r_players (executeImmediateTwist 0 (card move_back_gate (Some 3) False)
               (newPlayer ''human-0'' human 7) [newPlayer ''human-0'' human 7] [])
     = Some [newPlayer ''human-0'' human 4]"
proof -
  have g: "findPreviousGate 7 = 5"
    by (simp add: findPreviousGate_def BOARD_GATE_POSITIONS_def Math_max_def)
  have r: "js_rem (7 - 3 + 25) 25 = 4"
    by (simp add: js_rem_def signed_modulo_int_def)
  have c: "\<not> requiresChoice (card move_back_gate v False)"
    "effectType (card move_back_gate v False) = move_back_gate"
    "effectValue (card move_back_gate v False) = v" for v
    by (simp_all add: card_def)
  show ?thesis
    using C9_move_back_gate [OF c(1,2), of "Some 0" 0 "newPlayer ''human-0'' human 7"
        "[newPlayer ''human-0'' human 7]" "[]"]
      C9_move_back_gate [OF c(1,2), of "Some 3" 0 "newPlayer ''human-0'' human 7"
        "[newPlayer ''human-0'' human 7]" "[]"] g r
    by (simp add: c(3) newPlayer_def)
qed

section \<open>The sample games, evaluated\<close>

lemma stars_gameStart:
  "stars gameStart = [starNo 0 0, starNo 1 50, starNo 2 50, starNo 3 100, starNo 4 100,
     starNo 5 150, starNo 6 150, starNo 7 200, starNo 8 200, starNo 9 250]"
  by (simp add: gameStart_def initialState_def createInitialStars_def STAR_POINT_VALUES_def
      starNo_def upt_rec)

lemma players_gameStart: "players gameStart = twoPlayers"
  by (simp add: gameStart_def initialState_def)

lemma currentTurnIndex_gameStart: "currentTurnIndex gameStart = 0"
  by (simp add: gameStart_def initialState_def)

lemma reachable_gameStart: "reachable gameStart"
  unfolding gameStart_def
  by (rule reachable.initial) (simp_all add: twoPlayers_def newPlayer_def)

lemma currentTurnPlayer_activeTwist:
  "currentTurnPlayer (s\<lparr>activeTwist := x\<rparr>) = currentTurnPlayer s"
  by (simp add: currentTurnPlayer_def)

lemma reveal_frame:
  "currentTurnIndex (handleStarRevealComplete s) = currentTurnIndex s
   \<and> modifiers (handleStarRevealComplete s) = modifiers s
   \<and> activeTwist (handleStarRevealComplete s) = activeTwist s"
  by (simp add: handleStarRevealComplete_def Let_def split: option.splits)

lemma reachable_zeroStarAwarded: "reachable zeroStarAwarded"
  unfolding zeroStarAwarded_def
  by (rule reachable.starReveal [OF reachable_gameStart])
     (simp_all add: players_gameStart twoPlayers_def newPlayer_def availableStars_def
        stars_gameStart starNo_def)

lemma reachable_zeroStarUpgraded: "reachable zeroStarUpgraded"
  unfolding zeroStarUpgraded_def
  by (rule reachable.twistConfirm [OF reachable.other [OF reachable_zeroStarAwarded]])
     (simp_all add: validRandom_def)

lemma stars_zeroStarAwarded:
  "stars zeroStarAwarded =
     [(starNo 0 0)\<lparr>isEarned := True, earnedByPlayerId := Some ''human-0''\<rparr>,
      starNo 1 50, starNo 2 50, starNo 3 100, starNo 4 100,
      starNo 5 150, starNo 6 150, starNo 7 200, starNo 8 200, starNo 9 250]"
  by (simp add: zeroStarAwarded_def handleStarRevealComplete_def Let_def stars_gameStart
      starNo_def newPlayer_def)

lemma players_zeroStarAwarded:
  "players zeroStarAwarded =
     [(newPlayer ''human-0'' human 0)\<lparr>score := 0, starsCollected := 1\<rparr>,
      newPlayer ''digital-0'' digital 5]"
  by (simp add: zeroStarAwarded_def handleStarRevealComplete_def Let_def players_gameStart
      twoPlayers_def starNo_def newPlayer_def)

lemma currentTurnIndex_zeroStarAwarded: "currentTurnIndex zeroStarAwarded = 0"
  by (simp add: zeroStarAwarded_def reveal_frame currentTurnIndex_gameStart)

lemma currentTurnPlayer_zeroStarAwarded:
  "currentTurnPlayer zeroStarAwarded
     = Some ((newPlayer ''human-0'' human 0)\<lparr>score := 0, starsCollected := 1\<rparr>)"
  by (simp add: currentTurnPlayer_def at_index_def players_zeroStarAwarded
      currentTurnIndex_zeroStarAwarded)

lemma stars_bigStarAwarded:
  "stars bigStarAwarded =
     [starNo 0 0, starNo 1 50, starNo 2 50, starNo 3 100, starNo 4 100,
      starNo 5 150, starNo 6 150, starNo 7 200, starNo 8 200,
      (starNo 9 250)\<lparr>isEarned := True, earnedByPlayerId := Some ''human-0''\<rparr>]"
  by (simp add: bigStarAwarded_def handleStarRevealComplete_def Let_def stars_gameStart
      starNo_def newPlayer_def)

lemma players_bigStarAwarded:
  "players bigStarAwarded =
     [(newPlayer ''human-0'' human 0)\<lparr>score := 250, starsCollected := 1\<rparr>,
      newPlayer ''digital-0'' digital 5]"
  by (simp add: bigStarAwarded_def handleStarRevealComplete_def Let_def players_gameStart
      twoPlayers_def starNo_def newPlayer_def)

lemma players_pointsSwapped:
  "players pointsSwapped =
     [(newPlayer ''human-0'' human 0)\<lparr>score := 0, starsCollected := 1\<rparr>,
      (newPlayer ''digital-0'' digital 5)\<lparr>score := 250\<rparr>]"
  by (simp add: pointsSwapped_def handleTwistChoosePlayer_def Let_def currentTurnPlayer_def
      at_index_def players_bigStarAwarded card_def newPlayer_def)

lemma stars_pointsSwapped: "stars pointsSwapped = stars bigStarAwarded"
  by (simp add: pointsSwapped_def handleTwistChoosePlayer_def Let_def currentTurnPlayer_def
      at_index_def players_bigStarAwarded card_def newPlayer_def)

lemma currentTurnIndex_pointsSwapped: "currentTurnIndex pointsSwapped = 1"
  by (simp add: pointsSwapped_def handleTwistChoosePlayer_def Let_def currentTurnPlayer_def
      at_index_def players_bigStarAwarded card_def newPlayer_def)

lemma players_starStolen:
  "players starStolen =
     [(newPlayer ''human-0'' human 0)\<lparr>score := - 250, starsCollected := 0\<rparr>,
      (newPlayer ''digital-0'' digital 5)\<lparr>score := 500, starsCollected := 1\<rparr>]"
  by (simp add: starStolen_def handleTwistChoosePlayer_def Let_def currentTurnPlayer_def
      at_index_def players_pointsSwapped stars_pointsSwapped stars_bigStarAwarded
      currentTurnIndex_pointsSwapped card_def newPlayer_def starNo_def pickRandom_def)

lemma reachable_bigStarAwarded: "reachable bigStarAwarded"
  unfolding bigStarAwarded_def
  by (rule reachable.starReveal [OF reachable_gameStart])
     (simp_all add: players_gameStart twoPlayers_def newPlayer_def availableStars_def
        stars_gameStart starNo_def)

lemma reachable_pointsSwapped: "reachable pointsSwapped"
  unfolding pointsSwapped_def
  by (rule reachable.choosePlayer [OF reachable.other [OF reachable_bigStarAwarded]])
     (simp_all add: validRandom_def players_bigStarAwarded)

lemma reachable_starStolen: "reachable starStolen"
  unfolding starStolen_def
  by (rule reachable.choosePlayer [OF reachable.other [OF reachable_pointsSwapped]])
     (simp_all add: validRandom_def players_pointsSwapped)

section \<open>Turn advance: properties\<close>

lemma tick_remove_commute:
  "removeModifier pid ty (tickModifiers ms) = tickModifiers (removeModifier pid ty ms)"
  by (induction ms) (auto simp: removeModifier_def tickModifiers_def)

lemma removed_not_frozen:
  "\<not> isPlayerFrozen pid (removeModifier pid m_frozen ms)"
  by (auto simp: isPlayerFrozen_def removeModifier_def list_ex_iff)

text \<open>
  What the skip loop does when the modifier list the advance reads shows the next player
  \<open>B\<close> as frozen and the player after \<open>B\<close> as not frozen: the turn goes to the player after
  \<open>B\<close>, and the store is the store with \<open>B\<close>'s frozen modifier removed, ticked once.  (The
  source calls \<open>tickModifiers\<close> before the loop; the loop tests the render's list, and
  removing and ticking commute.)
\<close>

lemma skip_of_frozen_read:
  assumes noExtra: "\<not> extraTurnPending r"
    and b: "b = stepIndex (playOrderReversed r) (int (length (players r))) (currentTurnIndex r)"
    and B: "at_index (players r) b = Some B"
    and frozenB: "isPlayerFrozen (p_id B) (modifiers r)"
    and c: "c = stepIndex (playOrderReversed r) (int (length (players r))) b"
    and C: "at_index (players r) c = Some C"
    and notFrozenC: "\<not> isPlayerFrozen (p_id C) (modifiers r)"
  shows "currentTurnIndex (handleNextTurn r s) = c
       \<and> modifiers (handleNextTurn r s) = tickModifiers (removeModifier (p_id B) m_frozen (modifiers s))
       \<and> \<not> isPlayerFrozen (p_id B) (modifiers (handleNextTurn r s))
       \<and> gamePhase (handleNextTurn r s) = spinning"
proof -
  have ne: "players r \<noteq> []"
    using B by (auto simp: at_index_def split: if_splits)
  have pB: "players r ! nat b = B"
    using B by (auto simp: at_index_def split: if_splits)
  have fb: "frozenAt (players r) (modifiers r) b"
    using B frozenB by (simp add: frozenAt_def)
  have fc: "\<not> frozenAt (players r) (modifiers r) c"
    using C notFrozenC by (simp add: frozenAt_def)
  have skip: "skipFrozen (players r) (modifiers r) (playOrderReversed r) b 0 st =
                (c, removeModifier (p_id B) m_frozen st)" for st
    apply (subst skipFrozen.simps)
    apply (simp add: fb ne c [symmetric] pB)
    apply (subst skipFrozen.simps)
    apply (simp add: fc)
    done
  have idx: "currentTurnIndex (handleNextTurn r s) = c"
    using noExtra by (simp add: handleNextTurn_def Let_def b [symmetric] skip)
  have mods: "modifiers (handleNextTurn r s) =
                removeModifier (p_id B) m_frozen (tickModifiers (modifiers s))"
    using noExtra by (simp add: handleNextTurn_def Let_def b [symmetric] skip)
  have ph: "gamePhase (handleNextTurn r s) = spinning"
    using noExtra by (simp add: handleNextTurn_def Let_def b [symmetric] skip)
  have nfB: "\<not> isPlayerFrozen (p_id B) (modifiers (handleNextTurn r s))"
    unfolding mods by (rule removed_not_frozen)
  show ?thesis
    using idx mods ph nfB by (simp add: tick_remove_commute)
qed

text \<open>
  The \<open>freeze_player\<close> choice adds a frozen modifier of one turn for the target, who then
  counts as frozen in the store, and schedules the turn advance.
\<close>

lemma freeze_player_adds:
  assumes "activeTwist s = Some tw" and "effectType tw = freeze_player"
    and "currentTurnPlayer s = Some cp"
  shows "modifiers (fst (handleTwistChoosePlayer rnd target s)) =
           addModifier (frozenModifier (p_id target) 1) (modifiers s)"
    and "isPlayerFrozen (p_id target) (modifiers (fst (handleTwistChoosePlayer rnd target s)))"
    and "snd (handleTwistChoosePlayer rnd target s) = [CallHandleNextTurn]"
  using assms
  by (simp_all add: handleTwistChoosePlayer_def frozenModifier_def addModifier_def
      isPlayerFrozen_def)

text \<open>
  The advance that the \<open>freeze_player\<close> choice schedules is the \<open>handleNextTurn\<close> of the render
  in which the choice was made: it reads the modifier list from before the add.  Whenever
  the target \<open>B\<close> is the next player and was not frozen before, that advance does not skip
  \<open>B\<close>, and its tick takes the new modifier's single turn, so the modifier is gone from the
  store without \<open>B\<close> having missed a turn.
\<close>

lemma freeze_then_scheduled_advance:
  assumes tw: "activeTwist s = Some tw" and eff: "effectType tw = freeze_player"
    and cp: "currentTurnPlayer s = Some cp"
    and noExtra: "\<not> extraTurnPending s"
    and b: "b = stepIndex (playOrderReversed s) (int (length (players s))) (currentTurnIndex s)"
    and B: "at_index (players s) b = Some B"
    and notFrozenBefore: "\<not> isPlayerFrozen (p_id B) (modifiers s)"
  shows "currentTurnIndex (handleNextTurn s (fst (handleTwistChoosePlayer rnd B s))) = b"
    and "\<not> isPlayerFrozen (p_id B)
             (modifiers (handleNextTurn s (fst (handleTwistChoosePlayer rnd B s))))"
proof -
  let ?s' = "fst (handleTwistChoosePlayer rnd B s)"
  have nf: "\<not> frozenAt (players s) (modifiers s) b"
    using B notFrozenBefore by (simp add: frozenAt_def)
  have skip: "skipFrozen (players s) (modifiers s) (playOrderReversed s) b 0 st = (b, st)" for st
    by (subst skipFrozen.simps) (simp add: nf)
  show "currentTurnIndex (handleNextTurn s ?s') = b"
    using noExtra by (simp add: handleNextTurn_def Let_def b [symmetric] skip)
  have m: "modifiers (handleNextTurn s ?s') = tickModifiers (modifiers ?s')"
    using noExtra by (simp add: handleNextTurn_def Let_def b [symmetric] skip)
  have "\<not> isPlayerFrozen (p_id B) (tickModifiers (addModifier (frozenModifier (p_id B) 1) ms))" for ms
    by (auto simp: isPlayerFrozen_def tickModifiers_def addModifier_def frozenModifier_def
        list_ex_iff)
  then show "\<not> isPlayerFrozen (p_id B) (modifiers (handleNextTurn s ?s'))"
    unfolding m freeze_player_adds(1) [OF tw eff cp] .
qed

lemma freezeChoice_fields:
  "players freezeChoice = threePlayers"
  "modifiers freezeChoice = []"
  "currentTurnIndex freezeChoice = 0"
  "playOrderReversed freezeChoice = False"
  "extraTurnPending freezeChoice = False"
  "reverseTurnsRemaining freezeChoice = 0"
  "activeTwist freezeChoice = Some (card freeze_player None True)"
  by (simp_all add: freezeChoice_def initialState_def)

lemma currentTurnPlayer_freezeChoice:
  "currentTurnPlayer freezeChoice = Some (newPlayer ''human-0'' human 0)"
  by (simp add: currentTurnPlayer_def at_index_def freezeChoice_fields threePlayers_def)

lemma modifiers_freezeChosen: "modifiers freezeChosen = [frozenModifier ''human-1'' 1]"
proof -
  have e: "effectType (card freeze_player None True) = freeze_player"
    by (simp add: card_def)
  show ?thesis
    unfolding freezeChosen_def
      freeze_player_adds(1) [OF freezeChoice_fields(7) e currentTurnPlayer_freezeChoice]
    by (simp add: freezeChoice_fields addModifier_def newPlayer_def)
qed

text \<open>
  C8.  The claim, that a player frozen by \<open>freeze_player\<close> is skipped when the turn would
  next pass to them, does not hold of the code.  Three players start a game; the first
  draws \<open>freeze_player\<close> and chooses the second, who is next.  The choice puts the frozen
  modifier (one turn) for the second player into the store and schedules the turn advance;
  that advance reads the modifier list of the render of the choice, which has no frozen
  entry, so the turn passes to the second player (index 1, not index 2), and the tick of
  the same advance empties the store: the second player is not skipped.
\<close>

theorem C8_freeze_not_skipped:
  "p_id (players freezeChoice ! 1) = ''human-1''
   \<and> isPlayerFrozen ''human-1'' (modifiers freezeChosen)
   \<and> snd (handleTwistChoosePlayer (\<lambda>n. 0) (newPlayer ''human-1'' human 5) freezeChoice)
       = [CallHandleNextTurn]
   \<and> currentTurnIndex (handleNextTurn freezeChoice freezeChosen) = 1
   \<and> modifiers (handleNextTurn freezeChoice freezeChosen) = []
   \<and> gamePhase (handleNextTurn freezeChoice freezeChosen) = spinning"
proof -
  have e: "effectType (card freeze_player None True) = freeze_player"
    by (simp add: card_def)
  have a: "p_id (players freezeChoice ! 1) = ''human-1''"
    by (simp add: freezeChoice_fields threePlayers_def newPlayer_def)
  have f: "isPlayerFrozen ''human-1'' (modifiers freezeChosen)"
    by (simp add: modifiers_freezeChosen isPlayerFrozen_def frozenModifier_def)
  have t: "snd (handleTwistChoosePlayer (\<lambda>n. 0) (newPlayer ''human-1'' human 5) freezeChoice)
             = [CallHandleNextTurn]"
    by (rule freeze_player_adds(3) [OF freezeChoice_fields(7) e currentTurnPlayer_freezeChoice])
  have st: "stepIndex False 3 0 = 1"
    by (simp add: stepIndex_def js_rem_def signed_modulo_int_def)
  have l: "int (length threePlayers) = 3"
    by (simp add: threePlayers_def)
  have nf: "\<not> frozenAt threePlayers [] 1"
    by (simp add: frozenAt_def at_index_def threePlayers_def isPlayerFrozen_def)
  have skip: "skipFrozen threePlayers [] False 1 0 store = (1, store)" for store
    by (subst skipFrozen.simps) (simp add: nf)
  have i: "currentTurnIndex (handleNextTurn freezeChoice freezeChosen) = 1"
    by (simp add: handleNextTurn_def Let_def freezeChoice_fields l st skip)
  have m: "modifiers (handleNextTurn freezeChoice freezeChosen) = []"
    by (simp add: handleNextTurn_def Let_def freezeChoice_fields l st skip
        modifiers_freezeChosen tickModifiers_def frozenModifier_def)
  have g: "gamePhase (handleNextTurn freezeChoice freezeChosen) = spinning"
    by (simp add: handleNextTurn_def Let_def freezeChoice_fields l st skip)
  from a f t i m g show ?thesis by blast
qed

text \<open>
  The same holds of \<open>extra_turn\<close>: the advance that its confirmation schedules reads the
  flag of the render of the confirmation, which is not set yet; it passes the turn on and
  leaves the flag set in the store.
\<close>

lemma extraTurnDrawn_fields:
  "players extraTurnDrawn = twoPlayers"
  "modifiers extraTurnDrawn = []"
  "currentTurnIndex extraTurnDrawn = 0"
  "playOrderReversed extraTurnDrawn = False"
  "extraTurnPending extraTurnDrawn = False"
  "reverseTurnsRemaining extraTurnDrawn = 0"
  "activeTwist extraTurnDrawn = Some (card extra_turn None False)"
  by (simp_all add: extraTurnDrawn_def gameStart_def initialState_def)

lemma extraTurnConfirmed_eq:
  "extraTurnConfirmed = extraTurnDrawn\<lparr>activeTwist := None, extraTurnPending := True\<rparr>"
  by (simp add: extraTurnConfirmed_def handleTwistConfirm_def currentTurnPlayer_def at_index_def
      extraTurnDrawn_fields twoPlayers_def executeImmediateTwist_def card_def nextTurnResult_def
      truthy_def Let_def)

lemma skip_twoPlayers: "skipFrozen twoPlayers [] False 1 0 store = (1, store)"
proof -
  have nf: "\<not> frozenAt twoPlayers [] 1"
    by (simp add: frozenAt_def at_index_def twoPlayers_def isPlayerFrozen_def)
  show ?thesis
    by (subst skipFrozen.simps) (simp add: nf)
qed

lemma extraTurnAdvanced_fields:
  "players extraTurnAdvanced = twoPlayers"
  "stars extraTurnAdvanced = stars gameStart"
  "modifiers extraTurnAdvanced = []"
  "currentTurnIndex extraTurnAdvanced = 1"
  "extraTurnPending extraTurnAdvanced = True"
  "questionsAnswered extraTurnAdvanced = 1"
  "wheelResult extraTurnAdvanced = None"
proof -
  have st: "stepIndex False 2 0 = 1"
    by (simp add: stepIndex_def js_rem_def signed_modulo_int_def)
  have l: "int (length twoPlayers) = 2"
    by (simp add: twoPlayers_def)
  show "players extraTurnAdvanced = twoPlayers"
    "stars extraTurnAdvanced = stars gameStart"
    "modifiers extraTurnAdvanced = []"
    "currentTurnIndex extraTurnAdvanced = 1"
    "extraTurnPending extraTurnAdvanced = True"
    "questionsAnswered extraTurnAdvanced = 1"
    "wheelResult extraTurnAdvanced = None"
    by (simp_all add: extraTurnAdvanced_def handleNextTurn_def Let_def extraTurnDrawn_fields
        extraTurnConfirmed_eq l st skip_twoPlayers tickModifiers_def)
       (simp_all add: extraTurnDrawn_def gameStart_def initialState_def)
qed

lemma extra_turn_own_advance:
  "extraTurnPending extraTurnConfirmed
   \<and> currentTurnIndex extraTurnAdvanced = 1
   \<and> extraTurnPending extraTurnAdvanced"
  by (simp add: extraTurnAdvanced_fields extraTurnConfirmed_eq)







section \<open>Points swap: properties\<close>

lemma id_eq_iff:
  "distinct (map p_id ps) \<Longrightarrow> i < length ps \<Longrightarrow> k < length ps \<Longrightarrow>
   p_id (ps ! k) = p_id (ps ! i) \<longleftrightarrow> k = i"
  using nth_eq_iff_index_eq [of "map p_id ps" k i] by simp

lemma map_two_update:
  assumes d: "distinct (map p_id ps)" and i: "i < length ps" and j: "j < length ps" and ij: "i \<noteq> j"
  shows "map (\<lambda>p. if p_id p = p_id (ps ! i) then f p
                  else if p_id p = p_id (ps ! j) then g p else p) ps
         = ps[i := f (ps ! i), j := g (ps ! j)]"
proof (rule nth_equalityI)
  show "length (map (\<lambda>p. if p_id p = p_id (ps ! i) then f p
                  else if p_id p = p_id (ps ! j) then g p else p) ps)
        = length (ps[i := f (ps ! i), j := g (ps ! j)])" by simp
next
  fix k assume "k < length (map (\<lambda>p. if p_id p = p_id (ps ! i) then f p
                  else if p_id p = p_id (ps ! j) then g p else p) ps)"
  then have k: "k < length ps" by simp
  show "map (\<lambda>p. if p_id p = p_id (ps ! i) then f p
                  else if p_id p = p_id (ps ! j) then g p else p) ps ! k
        = ps[i := f (ps ! i), j := g (ps ! j)] ! k"
    using k i j ij id_eq_iff [OF d i k] id_eq_iff [OF d j k]
    by (auto simp: nth_list_update)
qed

lemma handleNextTurn_frame:
  "gamePhase (handleNextTurn r s) = spinning"
  "players (handleNextTurn r s) = players s"
  "stars (handleNextTurn r s) = stars s"
  by (simp_all add: handleNextTurn_def Let_def split: prod.splits)

text \<open>
  C6.  With a \<open>points_swap\<close> twist active, choosing another player of the roster exchanges
  the two scores if the acting player's score is strictly below the target's, and changes
  no score otherwise; in both cases every other field of the two players, every other
  player, the stars and the modifiers are unchanged, and the handler schedules the turn
  advance, which goes to \<open>spinning\<close> and leaves the players as the choice left them.
\<close>

theorem C6_points_swap:
  assumes tw: "activeTwist s = Some tw" and eff: "effectType tw = points_swap"
    and i: "0 \<le> currentTurnIndex s" "nat (currentTurnIndex s) < length (players s)"
    and j: "j < length (players s)" and ij: "j \<noteq> nat (currentTurnIndex s)"
    and d: "distinct (map p_id (players s))"
    and cp: "cp = players s ! nat (currentTurnIndex s)"
    and tg: "target = players s ! j"
  shows "players (fst (handleTwistChoosePlayer rnd target s)) =
           (if score cp < score target
            then (players s)[nat (currentTurnIndex s) := cp\<lparr>score := score target\<rparr>,
                             j := target\<lparr>score := score cp\<rparr>]
            else players s)
       \<and> stars (fst (handleTwistChoosePlayer rnd target s)) = stars s
       \<and> modifiers (fst (handleTwistChoosePlayer rnd target s)) = modifiers s
       \<and> snd (handleTwistChoosePlayer rnd target s) = [CallHandleNextTurn]
       \<and> gamePhase (handleNextTurn s (fst (handleTwistChoosePlayer rnd target s))) = spinning
       \<and> players (handleNextTurn s (fst (handleTwistChoosePlayer rnd target s))) =
             players (fst (handleTwistChoosePlayer rnd target s))"
proof -
  have ctp: "currentTurnPlayer s = Some cp"
    using i cp by (simp add: currentTurnPlayer_def at_index_def)
  have m: "map (\<lambda>p. if p_id p = p_id cp then p\<lparr>score := score target\<rparr>
                    else if p_id p = p_id target then p\<lparr>score := score cp\<rparr> else p) (players s)
           = (players s)[nat (currentTurnIndex s) := cp\<lparr>score := score target\<rparr>,
                         j := target\<lparr>score := score cp\<rparr>]"
    unfolding cp tg using map_two_update [OF d i(2) j ij [symmetric]] .
  show ?thesis
    using tw eff ctp m
    by (simp add: handleTwistChoosePlayer_def Let_def handleNextTurn_frame)
qed

theorem C6_points_swap_witness:
  "players (fst (handleTwistChoosePlayer (\<lambda>n. 0) (players bigStarAwarded ! 0)
            (bigStarAwarded\<lparr>currentTurnIndex := 1,
                            activeTwist := Some (card points_swap None True)\<rparr>)))
     = [(newPlayer ''human-0'' human 0)\<lparr>score := 0, starsCollected := 1\<rparr>,
        (newPlayer ''digital-0'' digital 5)\<lparr>score := 250\<rparr>]
   \<and> snd (handleTwistChoosePlayer (\<lambda>n. 0) (players bigStarAwarded ! 0)
            (bigStarAwarded\<lparr>currentTurnIndex := 1,
                            activeTwist := Some (card points_swap None True)\<rparr>))
     = [CallHandleNextTurn]"
proof -
  let ?s = "bigStarAwarded\<lparr>currentTurnIndex := 1,
                            activeTwist := Some (card points_swap None True)\<rparr>"
  have tw: "activeTwist ?s = Some (card points_swap None True)" by simp
  have eff: "effectType (card points_swap None True) = points_swap" by (simp add: card_def)
  have ps: "players ?s = players bigStarAwarded" by simp
  have i: "0 \<le> currentTurnIndex ?s" "nat (currentTurnIndex ?s) < length (players ?s)"
    by (simp_all add: players_bigStarAwarded)
  have j: "0 < length (players ?s)" by (simp add: players_bigStarAwarded)
  have ij: "0 \<noteq> nat (currentTurnIndex ?s)" by simp
  have d: "distinct (map p_id (players ?s))"
    by (simp add: players_bigStarAwarded newPlayer_def)
  have cp: "players ?s ! 1 = players ?s ! nat (currentTurnIndex ?s)" by simp
  have tg: "players bigStarAwarded ! 0 = players ?s ! 0" by simp
  show ?thesis
    using C6_points_swap [OF tw eff i j ij d cp tg, of "\<lambda>n. 0"]
    by (simp add: players_bigStarAwarded newPlayer_def)
qed

section \<open>Star pool: properties\<close>

lemma createInitialStars_values: "map pointValue (createInitialStars vals) = vals"
proof -
  have "map pointValue (createInitialStars vals) = map fst (zip vals [0..<length vals])"
    by (simp add: createInitialStars_def comp_def case_prod_unfold)
  then show ?thesis by simp
qed

lemma createInitialStars_ids: "map s_id (createInitialStars vals) = map int [0..<length vals]"
proof -
  have "map s_id (createInitialStars vals) = map (\<lambda>x. int (snd x)) (zip vals [0..<length vals])"
    by (simp add: createInitialStars_def comp_def case_prod_unfold)
  also have "\<dots> = map int (map snd (zip vals [0..<length vals]))"
    by (simp only: map_map comp_def)
  also have "map snd (zip vals [0..<length vals]) = [0..<length vals]"
    by (rule map_snd_zip) simp
  finally show ?thesis .
qed

lemma zeroStars_count: "zeroStars sts = int (count_list (map pointValue sts) 0)"
  by (induction sts) (auto simp: zeroStars_def)

lemma initial_invariant:
  assumes "mset vals = mset STAR_POINT_VALUES"
  shows "poolInvariant (createInitialStars vals)"
proof -
  have len: "length vals = 10"
    using assms mset_eq_length [of vals STAR_POINT_VALUES] by (simp add: STAR_POINT_VALUES_def)
  have d: "distinct (map s_id (createInitialStars vals))"
    by (simp add: createInitialStars_ids distinct_map inj_on_def)
  have "count_list vals 0 = count (mset vals) 0"
    by (simp add: count_mset)
  also have "\<dots> = count (mset STAR_POINT_VALUES) 0"
    using assms by simp
  also have "\<dots> = 1"
    by (simp add: STAR_POINT_VALUES_def)
  finally have z: "zeroStars (createInitialStars vals) = 1"
    by (simp add: zeroStars_count createInitialStars_values)
  have "sum_list vals = sum_mset (mset vals)"
    by (simp add: sum_mset_sum_list)
  also have "\<dots> = sum_mset (mset STAR_POINT_VALUES)"
    using assms by simp
  also have "\<dots> = 1250"
    by (simp add: STAR_POINT_VALUES_def)
  finally have t: "starTotal (createInitialStars vals) = 1250"
    by (simp add: starTotal_def createInitialStars_values)
  have l: "length (createInitialStars vals) = 10"
    using len by (simp add: createInitialStars_def)
  show ?thesis
    using d z t l by (simp add: poolInvariant_def)
qed

text \<open>An update that keeps ids and point values keeps the invariant.\<close>

lemma poolInvariant_cong:
  "map s_id sts' = map s_id sts \<Longrightarrow> map pointValue sts' = map pointValue sts \<Longrightarrow>
   poolInvariant sts \<Longrightarrow> poolInvariant sts'"
proof -
  assume i: "map s_id sts' = map s_id sts" and v: "map pointValue sts' = map pointValue sts"
    and inv: "poolInvariant sts"
  have l: "length sts' = length sts" using i by (rule map_eq_imp_length_eq)
  show ?thesis
    using inv i v l by (simp add: poolInvariant_def zeroStars_count starTotal_def)
qed

lemma upgrade_absent:
  "s_id z \<notin> s_id ` set sts \<Longrightarrow>
   map (\<lambda>s. if s_id s = s_id z then s\<lparr>pointValue := 250\<rparr> else s) sts = sts"
  by (induction sts) auto

lemma upgrade_effect:
  "distinct (map s_id sts) \<Longrightarrow> z \<in> set sts \<Longrightarrow> pointValue z = 0 \<Longrightarrow>
   starTotal (map (\<lambda>s. if s_id s = s_id z then s\<lparr>pointValue := 250\<rparr> else s) sts) = starTotal sts + 250
   \<and> zeroStars (map (\<lambda>s. if s_id s = s_id z then s\<lparr>pointValue := 250\<rparr> else s) sts) = zeroStars sts - 1"
proof (induction sts)
  case Nil
  then show ?case by simp
next
  case (Cons a sts)
  show ?case
  proof (cases "a = z")
    case True
    then have "s_id z \<notin> s_id ` set sts" using Cons.prems by auto
    then show ?thesis
      using True Cons.prems by (simp add: upgrade_absent starTotal_def zeroStars_def)
  next
    case False
    then have zin: "z \<in> set sts" using Cons.prems by simp
    then have "s_id a \<noteq> s_id z" using Cons.prems by auto
    then show ?thesis
      using Cons.IH zin Cons.prems by (simp add: starTotal_def zeroStars_def)
  qed
qed

lemma upgrade_invariant:
  assumes inv: "poolInvariant sts" and z: "z \<in> set sts" and v: "pointValue z = 0"
  shows "poolInvariant (map (\<lambda>s. if s_id s = s_id z then s\<lparr>pointValue := 250\<rparr> else s) sts)"
proof -
  let ?sts' = "map (\<lambda>s. if s_id s = s_id z then s\<lparr>pointValue := 250\<rparr> else s) sts"
  have d: "distinct (map s_id sts)" using inv by (simp add: poolInvariant_def)
  have ids: "map s_id ?sts' = map s_id sts" by (induction sts) auto
  have "z \<in> set (filter (\<lambda>st. pointValue st = 0) sts)"
    using z v by simp
  then obtain a rest where "filter (\<lambda>st. pointValue st = 0) sts = a # rest"
    by (cases "filter (\<lambda>st. pointValue st = 0) sts") auto
  then have zpos: "1 \<le> zeroStars sts"
    by (simp add: zeroStars_def)
  have d': "distinct (map s_id ?sts')"
    unfolding ids by (rule d)
  have l': "length ?sts' = 10"
    using inv by (simp add: poolInvariant_def)
  have z': "zeroStars ?sts' \<le> 1"
    using inv upgrade_effect [OF d z v] by (simp add: poolInvariant_def)
  have t': "starTotal ?sts' + 250 * zeroStars ?sts' = 1500"
    using inv upgrade_effect [OF d z v] by (simp add: poolInvariant_def)
  show ?thesis
    unfolding poolInvariant_def using d' l' z' t' by blast
qed

lemma executeImmediateTwist_stars:
  "r_stars (executeImmediateTwist rp tw cp ps sts) = Some sts' \<Longrightarrow> poolInvariant sts \<Longrightarrow>
   poolInvariant sts'"
  by (auto simp: executeImmediateTwist_def nextTurnResult_def Let_def find_Some_iff
      intro!: upgrade_invariant
      split: if_splits TwistEffectType.splits option.splits)

lemma award_map_ids:
  "map s_id (map (\<lambda>st. if s_id st = k then st\<lparr>isEarned := True, earnedByPlayerId := w\<rparr> else st) sts)
     = map s_id sts"
  by (induction sts) auto

lemma award_map_values:
  "map pointValue (map (\<lambda>st. if s_id st = k then st\<lparr>isEarned := True, earnedByPlayerId := w\<rparr> else st) sts)
     = map pointValue sts"
  by (induction sts) auto

lemma steal_map_ids:
  "map s_id (map (\<lambda>st. if s_id st = k then st\<lparr>earnedByPlayerId := w\<rparr> else st) sts) = map s_id sts"
  by (induction sts) auto

lemma steal_map_values:
  "map pointValue (map (\<lambda>st. if s_id st = k then st\<lparr>earnedByPlayerId := w\<rparr> else st) sts)
     = map pointValue sts"
  by (induction sts) auto

lemma reveal_stars:
  "map s_id (stars (handleStarRevealComplete s)) = map s_id (stars s)
   \<and> map pointValue (stars (handleStarRevealComplete s)) = map pointValue (stars s)"
  by (simp add: handleStarRevealComplete_def Let_def award_map_ids award_map_values
      split: option.splits)

lemma freeStar_stars:
  "map s_id (stars (fst (handleTwistFreeStar star s))) = map s_id (stars s)
   \<and> map pointValue (stars (fst (handleTwistFreeStar star s))) = map pointValue (stars s)"
  by (simp add: handleTwistFreeStar_def award_map_ids award_map_values split: option.splits)

lemma choosePlayer_stars:
  "map s_id (stars (fst (handleTwistChoosePlayer rnd target s))) = map s_id (stars s)
   \<and> map pointValue (stars (fst (handleTwistChoosePlayer rnd target s))) = map pointValue (stars s)"
  by (simp add: handleTwistChoosePlayer_def Let_def steal_map_ids steal_map_values
      split: option.splits TwistEffectType.splits)

lemma twistConfirm_stars:
  "stars (fst (handleTwistConfirm rp rd rnd s)) = stars s
   \<or> (\<exists>tw cp. r_stars (executeImmediateTwist rp tw cp (players s) (stars s))
                 = Some (stars (fst (handleTwistConfirm rp rd rnd s))))"
  by (auto simp: handleTwistConfirm_def Let_def split: option.splits prod.splits)

lemma reachable_poolInvariant: "reachable s \<Longrightarrow> poolInvariant (stars s)"
proof (induction rule: reachable.induct)
  case (initial shuffledValues roster)
  then show ?case by (simp add: initialState_def initial_invariant)
next
  case (other s s')
  then show ?case by simp
next
  case (starReveal s sp rs)
  show ?case
    using reveal_stars [of "s\<lparr>selectingStarPlayer := Some sp, revealingStar := Some rs\<rparr>"]
      starReveal.IH poolInvariant_cong by simp
next
  case (freeStar s star)
  show ?case
    using freeStar_stars [of star s] freeStar.IH poolInvariant_cong by blast
next
  case (choosePlayer s target rnd)
  show ?case
    using choosePlayer_stars [of rnd target s] choosePlayer.IH poolInvariant_cong by blast
next
  case (twistConfirm s rnd randomPos randomDifficulty)
  show ?case
    using twistConfirm_stars [of randomPos randomDifficulty rnd s] twistConfirm.IH
      executeImmediateTwist_stars by metis
qed

lemma earned_unearned: "earnedCount sts + unearnedCount sts = int (length sts)"
  by (induction sts) (auto simp: earnedCount_def unearnedCount_def)

lemma zeroStars_pos_iff: "0 < zeroStars sts \<longleftrightarrow> (\<exists>st \<in> set sts. pointValue st = 0)"
  by (induction sts) (auto simp: zeroStars_def)

lemma starTotal_values: "map pointValue sts' = map pointValue sts \<Longrightarrow> starTotal sts' = starTotal sts"
  by (simp add: starTotal_def)

text \<open>
  C1, as stated, fails: the point values sum to 1250, not 1100, at the start of a game, and
  to 1500 after a player who holds the 0-point star has confirmed \<open>upgrade_zero_star\<close>.
\<close>

theorem C1_counterexample:
  "reachable gameStart \<and> starTotal (stars gameStart) = 1250
   \<and> reachable zeroStarUpgraded \<and> starTotal (stars zeroStarUpgraded) = 1500"
proof -
  have a: "starTotal (stars gameStart) = 1250"
    by (simp add: stars_gameStart starTotal_def starNo_def)
  have b: "starTotal (stars zeroStarUpgraded) = 1500"
    by (simp add: zeroStarUpgraded_def handleTwistConfirm_def currentTurnPlayer_activeTwist
        currentTurnPlayer_zeroStarAwarded
        Let_def executeImmediateTwist_def card_def nextTurnResult_def stars_zeroStarAwarded
        players_zeroStarAwarded starNo_def starTotal_def truthy_def newPlayer_def)
  show ?thesis
    using a b reachable_gameStart reachable_zeroStarUpgraded by simp
qed

text \<open>
  C1, amended.  At every reachable state there are ten stars, the number of earned stars is
  10 minus the number of unearned ones, and the point values sum to 1250 while a star worth
  0 exists and to 1500 once \<open>upgrade_zero_star\<close> has turned it into 250; the star award,
  the free star and the stolen star leave the sum as it is.
\<close>

theorem C1_star_pool:
  assumes "reachable s"
  shows "length (stars s) = 10
       \<and> earnedCount (stars s) = 10 - unearnedCount (stars s)
       \<and> starTotal (stars s) = (if \<exists>st \<in> set (stars s). pointValue st = 0 then 1250 else 1500)
       \<and> starTotal (stars (handleStarRevealComplete s)) = starTotal (stars s)
       \<and> starTotal (stars (fst (handleTwistFreeStar star s))) = starTotal (stars s)
       \<and> starTotal (stars (fst (handleTwistChoosePlayer rnd target s))) = starTotal (stars s)"
proof -
  have inv: "poolInvariant (stars s)"
    using assms by (rule reachable_poolInvariant)
  then have len: "length (stars s) = 10"
    by (simp add: poolInvariant_def)
  have cnt: "earnedCount (stars s) = 10 - unearnedCount (stars s)"
    using earned_unearned [of "stars s"] len by simp
  have z0: "0 \<le> zeroStars (stars s)" by (simp add: zeroStars_def)
  have tot: "starTotal (stars s) = (if \<exists>st \<in> set (stars s). pointValue st = 0 then 1250 else 1500)"
  proof (cases "\<exists>st \<in> set (stars s). pointValue st = 0")
    case True
    then have "0 < zeroStars (stars s)" by (simp add: zeroStars_pos_iff)
    then have "zeroStars (stars s) = 1" using inv by (simp add: poolInvariant_def)
    then show ?thesis using inv True by (simp add: poolInvariant_def)
  next
    case False
    then have "\<not> 0 < zeroStars (stars s)" by (simp add: zeroStars_pos_iff)
    then have "zeroStars (stars s) = 0" using z0 by simp
    then show ?thesis using inv False by (simp add: poolInvariant_def)
  qed
  show ?thesis
    using len cnt tot reveal_stars [of s] freeStar_stars [of star s]
      choosePlayer_stars [of rnd target s] starTotal_values by metis
qed

theorem C1_star_pool_witness:
  "reachable gameStart \<and> length (stars gameStart) = 10
   \<and> earnedCount (stars gameStart) = 0 \<and> unearnedCount (stars gameStart) = 10
   \<and> starTotal (stars gameStart) = 1250"
proof -
  have u: "unearnedCount (stars gameStart) = 10"
    by (simp add: stars_gameStart unearnedCount_def starNo_def)
  have z: "\<exists>st \<in> set (stars gameStart). pointValue st = 0"
    by (simp add: stars_gameStart starNo_def)
  show ?thesis
    using C1_star_pool [OF reachable_gameStart] u z reachable_gameStart by simp
qed

section \<open>Scores: properties\<close>

lemma executeImmediateTwist_scores:
  assumes r: "r_players (executeImmediateTwist rp tw cp ps sts) = Some ps'"
    and nn: "\<forall>p \<in> set ps. 0 \<le> score p"
    and v: "effectType tw = instant_points \<longrightarrow> 0 \<le> orDefault (effectValue tw) 50"
  shows "\<forall>p \<in> set ps'. 0 \<le> score p"
  using r nn v
  by (auto simp: executeImmediateTwist_def nextTurnResult_def Let_def
      split: if_splits TwistEffectType.splits option.splits)

lemma twistConfirm_players:
  "players (fst (handleTwistConfirm rp rd rnd s)) = players s
   \<or> (\<exists>tw cp. activeTwist s = Some tw
         \<and> r_players (executeImmediateTwist rp tw cp (players s) (stars s))
             = Some (players (fst (handleTwistConfirm rp rd rnd s))))"
  by (auto simp: handleTwistConfirm_def Let_def split: option.splits prod.splits)

lemma at_index_mem: "at_index xs i = Some x \<Longrightarrow> x \<in> set xs"
  by (auto simp: at_index_def split: if_splits)

text \<open>
  C7, as stated, fails: after the first player was awarded the 250-point star, lost the 250
  points to the second player by \<open>points_swap\<close> and then had the star stolen, their score is
  \<open>0 - 250\<close>.
\<close>

theorem C7_counterexample:
  "reachable starStolen \<and> score (players starStolen ! 0) = - 250"
  using reachable_starStolen by (simp add: players_starStolen newPlayer_def)

text \<open>
  C7, amended.  Scores are integers.  From a state where every score and every star value
  is at least 0, every score is still at least 0 after a star award or a free star of a
  star worth at least 0, after the confirmation of any twist (\<open>instant_points\<close> with a value
  of at least 0, \<open>upgrade_zero_star\<close> and the others), and after a player choice other than
  \<open>steal_star\<close> (\<open>points_swap\<close> only exchanges two scores).  \<open>steal_star\<close> subtracts the value
  of the stolen star from the target's score with no lower bound: the scores stay at least
  0 when the target's score is at least the value of each star the target owns.
\<close>

theorem C7_scores:
  assumes nn: "scoresNonNegative s"
    and sv: "\<forall>st \<in> set (stars s). 0 \<le> pointValue st"
  shows "((\<forall>rs. revealingStar s = Some rs \<longrightarrow> 0 \<le> pointValue rs)
            \<longrightarrow> scoresNonNegative (handleStarRevealComplete s))
       \<and> (0 \<le> pointValue star \<longrightarrow> scoresNonNegative (fst (handleTwistFreeStar star s)))
       \<and> ((\<forall>tw. activeTwist s = Some tw \<and> effectType tw = instant_points
                  \<longrightarrow> 0 \<le> orDefault (effectValue tw) 50)
            \<longrightarrow> scoresNonNegative (fst (handleTwistConfirm rp rd rnd s)))
       \<and> (target \<in> set (players s)
            \<and> (\<forall>tw. activeTwist s = Some tw \<longrightarrow> effectType tw \<noteq> steal_star)
            \<longrightarrow> scoresNonNegative (fst (handleTwistChoosePlayer rnd target s)))
       \<and> (validRandom rnd
            \<and> (\<forall>p \<in> set (players s). \<forall>st \<in> set (stars s).
                  p_id p = p_id target \<and> earnedByPlayerId st = Some (p_id target)
                  \<longrightarrow> pointValue st \<le> score p)
            \<and> (\<exists>tw. activeTwist s = Some tw \<and> effectType tw = steal_star)
            \<longrightarrow> scoresNonNegative (fst (handleTwistChoosePlayer rnd target s)))"
proof -
  have nnp: "\<forall>p \<in> set (players s). 0 \<le> score p"
    using nn by (simp add: scoresNonNegative_def)
  have award: "scoresNonNegative (handleStarRevealComplete s)"
    if "\<forall>rs. revealingStar s = Some rs \<longrightarrow> 0 \<le> pointValue rs"
    using that nnp
    by (auto simp: scoresNonNegative_def handleStarRevealComplete_def Let_def split: option.splits)
  have free: "scoresNonNegative (fst (handleTwistFreeStar star s))" if "0 \<le> pointValue star"
    using that nnp
    by (auto simp: scoresNonNegative_def handleTwistFreeStar_def split: option.splits)
  have confirm: "scoresNonNegative (fst (handleTwistConfirm rp rd rnd s))"
    if h: "\<forall>tw. activeTwist s = Some tw \<and> effectType tw = instant_points
                  \<longrightarrow> 0 \<le> orDefault (effectValue tw) 50"
    using twistConfirm_players [of rp rd rnd s]
  proof
    assume "players (fst (handleTwistConfirm rp rd rnd s)) = players s"
    then show ?thesis using nnp by (simp add: scoresNonNegative_def)
  next
    assume "\<exists>tw cp. activeTwist s = Some tw
         \<and> r_players (executeImmediateTwist rp tw cp (players s) (stars s))
             = Some (players (fst (handleTwistConfirm rp rd rnd s)))"
    then obtain tw cp where tw: "activeTwist s = Some tw"
      and r: "r_players (executeImmediateTwist rp tw cp (players s) (stars s))
             = Some (players (fst (handleTwistConfirm rp rd rnd s)))" by blast
    have "effectType tw = instant_points \<longrightarrow> 0 \<le> orDefault (effectValue tw) 50"
      using h tw by blast
    then show ?thesis
      using executeImmediateTwist_scores [OF r nnp] by (simp add: scoresNonNegative_def)
  qed
  have choose: "scoresNonNegative (fst (handleTwistChoosePlayer rnd target s))"
    if t: "target \<in> set (players s)"
      and ns: "\<forall>tw. activeTwist s = Some tw \<longrightarrow> effectType tw \<noteq> steal_star"
  proof -
    have tnn: "0 \<le> score target" using t nnp by blast
    have cnn: "0 \<le> score cp" if "currentTurnPlayer s = Some cp" for cp
      using that nnp at_index_mem [of "players s" "currentTurnIndex s" cp]
      by (simp add: currentTurnPlayer_def)
    show ?thesis
      using nnp tnn cnn ns
      by (auto simp: scoresNonNegative_def handleTwistChoosePlayer_def Let_def
          split: option.splits TwistEffectType.splits if_splits)
  qed
  have steal: "scoresNonNegative (fst (handleTwistChoosePlayer rnd target s))"
    if vr: "validRandom rnd"
      and enough: "\<forall>p \<in> set (players s). \<forall>st \<in> set (stars s).
                  p_id p = p_id target \<and> earnedByPlayerId st = Some (p_id target)
                  \<longrightarrow> pointValue st \<le> score p"
      and st: "\<exists>tw. activeTwist s = Some tw \<and> effectType tw = steal_star"
  proof -
    let ?ts = "filter (\<lambda>st. earnedByPlayerId st = Some (p_id target)) (stars s)"
    have pick: "pickRandom rnd ?ts \<in> set ?ts" if "?ts \<noteq> []"
      using pickRandom_mem [OF vr that] .
    show ?thesis
    proof (cases "?ts = []")
      case True
      then show ?thesis
        using nnp st
        by (auto simp: scoresNonNegative_def handleTwistChoosePlayer_def Let_def
            split: option.splits)
    next
      case False
      from pick [OF False] have m: "pickRandom rnd ?ts \<in> set (stars s)"
        and o: "earnedByPlayerId (pickRandom rnd ?ts) = Some (p_id target)" by auto
      have v0: "0 \<le> pointValue (pickRandom rnd ?ts)" using sv m by blast
      have le: "\<forall>p \<in> set (players s). p_id p = p_id target
                  \<longrightarrow> pointValue (pickRandom rnd ?ts) \<le> score p"
        using enough m o by blast
      show ?thesis
        using nnp st False v0 le
        by (auto simp: scoresNonNegative_def handleTwistChoosePlayer_def Let_def
            split: option.splits)
    qed
  qed
  show ?thesis
    using award free confirm choose steal by blast
qed

theorem C7_scores_witness:
  "scoresNonNegative gameStart
   \<and> scoresNonNegative (fst (handleTwistFreeStar (starNo 9 250) gameStart))
   \<and> scoresNonNegative
        (handleStarRevealComplete
           (gameStart\<lparr>selectingStarPlayer := Some (newPlayer ''human-0'' human 0),
                      revealingStar := Some (starNo 9 250)\<rparr>))"
proof -
  let ?s = "gameStart\<lparr>selectingStarPlayer := Some (newPlayer ''human-0'' human 0),
                      revealingStar := Some (starNo 9 250)\<rparr>"
  have nn: "scoresNonNegative gameStart"
    by (simp add: scoresNonNegative_def players_gameStart twoPlayers_def newPlayer_def)
  have sv: "\<forall>st \<in> set (stars gameStart). 0 \<le> pointValue st"
    by (simp add: stars_gameStart starNo_def)
  have nn': "scoresNonNegative ?s"
    using nn by (simp add: scoresNonNegative_def)
  have sv': "\<forall>st \<in> set (stars ?s). 0 \<le> pointValue st"
    using sv by simp
  have v: "0 \<le> pointValue (starNo 9 250)"
    by (simp add: starNo_def)
  have r: "\<forall>rs. revealingStar ?s = Some rs \<longrightarrow> 0 \<le> pointValue rs"
    using v by simp
  show ?thesis
    using C7_scores [OF nn sv, of "starNo 9 250"] C7_scores [OF nn' sv'] nn v r by blast
qed

end
